theory Spec2Isabelle
  imports Complex_Main
begin

section \<open>Thea: Algorithms/ImplicitSurfaceMesher.hpp\<close>

text \<open>
  A shallow embedding of \<^verbatim>\<open>ImplicitSurfaceMesher\<close>: the two evaluator adapters, the
  option bundles with their negative-means-default convention, the two entry points and the
  two \<^verbatim>\<open>exportMesh\<close> overloads.

  Conventions of the model:
  \<^item> \<^verbatim>\<open>float\<close>, \<^verbatim>\<open>double\<close>, \<^verbatim>\<open>Real\<close> and CGAL's \<^verbatim>\<open>FT\<close> (a \<^verbatim>\<open>double\<close> in the kernel used)
    are \<open>real\<close>; the narrowing casts \<^verbatim>\<open>(float)\<close> and \<^verbatim>\<open>(Real)\<close> are functions handed in as
    parameters, widening conversions are the identity;
  \<^item> \<^verbatim>\<open>int\<close> and \<^verbatim>\<open>intx\<close> values are \<open>int\<close>, \<^verbatim>\<open>size_t\<close> counters are \<open>nat\<close>: the code only
    compares them, counts up to a bound and indexes with them, so nothing wraps around;
  \<^item> a pointer to the caller's functor is an \<open>option\<close>, \<open>None\<close> being the null pointer;
  \<^item> \<^verbatim>\<open>alwaysAssertM\<close> failing and \<^verbatim>\<open>throw Error(...)\<close> are values of \<open>error\<close>, and a
    function that can raise returns the state it has reached together with the outcome;
  \<^item> the code outside this header (the Bloomenthal polygonizer, CGAL's mesher,
    \<^verbatim>\<open>IncrementalMeshBuilder\<close> and the target mesh, \<^verbatim>\<open>Math::radiansToDegrees\<close>) is taken
    as parameters: functions that return, whose own failures are not part of this header;
  \<^item> the \<^verbatim>\<open>THEA_LOG\<close> lines are left out.
\<close>

subsection \<open>Errors\<close>

datatype error =
    Assert_EvaluatorNull
      \<comment> \<open>alwaysAssertM: "Surface evaluator function cannot be null"\<close>
  | Assert_IndexOutOfBounds
      \<comment> \<open>alwaysAssertM: "Vertex index in triangle from Bloomenthal polygonizer is out of bounds"\<close>
  | Error_AddVertex_Bloomenthal
      \<comment> \<open>Error: "Could not add vertex from Bloomenthal polygonizer to mesh"\<close>
  | Error_AddTriangle_Bloomenthal
      \<comment> \<open>Error: "Could not add triangle from Bloomenthal polygonizer to mesh"\<close>
  | Error_AddVertex_BoissonnatOudot
      \<comment> \<open>Error: "Could not add vertex from Boissonnat-Oudot polygonizer to mesh"\<close>
  | Error_UnmappedVertex
      \<comment> \<open>Error: "Mesh created by Boissonnat-Oudot polygonizer refers to unmapped vertex"\<close>
  | Error_AddTriangle_BoissonnatOudot
      \<comment> \<open>Error: "Could not add triangle from Boissonnat-Oudot polygonizer to mesh"\<close>

subsection \<open>Geometry\<close>

type_synonym Vector3 = "real \<times> real \<times> real"

record Ball3 =
  center :: Vector3
  radius :: real

definition getCenter :: "Ball3 \<Rightarrow> Vector3" where
  "getCenter ball = center ball"

definition getRadius :: "Ball3 \<Rightarrow> real" where
  "getRadius ball = radius ball"

subsection \<open>Evaluator adapters\<close>

record 'f BloomenthalEval =
  bloomenthal_func :: "'f option"

record 'f CgalEval =
  cgal_func :: "'f option"

text \<open>The constructor of \<^verbatim>\<open>BloomenthalEval\<close> stores the pointer and asserts that it is not null.\<close>

definition BloomenthalEval_ctor :: "'f option \<Rightarrow> error + 'f BloomenthalEval" where
  "BloomenthalEval_ctor func0 =
     (if func0 \<noteq> None then Inr \<lparr>bloomenthal_func = func0\<rparr> else Inl Assert_EvaluatorNull)"

text \<open>The constructor of \<^verbatim>\<open>CgalEval\<close> stores the pointer; its body is empty.\<close>

definition CgalEval_ctor :: "'f option \<Rightarrow> 'f CgalEval" where
  "CgalEval_ctor func0 = \<lparr>cgal_func = func0\<rparr>"

subsection \<open>Options\<close>

record Bloomenthal =
  cell_size :: real
  max_search_steps :: int
  tetrahedralize_cubes :: bool

record BoissonnatOudot =
  min_facet_angle :: real
  min_delaunay_radius :: real
  min_center_separation :: real

definition Bloomenthal_defaults :: Bloomenthal where
  "Bloomenthal_defaults =
     \<lparr>cell_size = - 1, max_search_steps = - 1, tetrahedralize_cubes = False\<rparr>"

definition BoissonnatOudot_defaults :: BoissonnatOudot where
  "BoissonnatOudot_defaults =
     \<lparr>min_facet_angle = - 1, min_delaunay_radius = - 1, min_center_separation = - 1\<rparr>"

subsection \<open>The incremental mesh builder\<close>

text \<open>
  \<^verbatim>\<open>IncrementalMeshBuilder<MeshT>\<close> and the mesh it writes to are not part of this header.
  A builder is a record of its operations over a state \<open>'m\<close> (the target mesh together with
  whatever the builder keeps), vertex handles \<open>'vh\<close> and face handles \<open>'fh\<close>.
  \<^verbatim>\<open>addVertex\<close> takes the position, the optional index and the optional normal.
\<close>

record ('m, 'vh, 'fh) Builder =
  builder_begin :: "'m \<Rightarrow> 'm"
  builder_end :: "'m \<Rightarrow> 'm"
  addVertex :: "Vector3 \<Rightarrow> int option \<Rightarrow> Vector3 option \<Rightarrow> 'm \<Rightarrow> 'vh \<times> 'm"
  isValidVertexHandle :: "'vh \<Rightarrow> bool"
  addFace :: "'vh list \<Rightarrow> 'm \<Rightarrow> 'fh \<times> 'm"
  isValidFaceHandle :: "'fh \<Rightarrow> bool"

text \<open>
  The calls an export makes on its builder are recorded, in the order they are made, each
  insertion with its arguments and the handle it returned.
\<close>

datatype ('vh, 'fh) call =
    Call_begin
  | Call_addVertex Vector3 "int option" "Vector3 option" 'vh
  | Call_addFace "'vh list" 'fh
  | Call_end

record ('m, 'vh, 'fh) export_state =
  mesh :: 'm
  calls :: "('vh, 'fh) call list"

definition do_begin ::
  "('m, 'vh, 'fh) Builder \<Rightarrow> ('m, 'vh, 'fh) export_state \<Rightarrow> ('m, 'vh, 'fh) export_state" where
  "do_begin builder st =
     \<lparr>mesh = builder_begin builder (mesh st), calls = calls st @ [Call_begin]\<rparr>"

definition do_end ::
  "('m, 'vh, 'fh) Builder \<Rightarrow> ('m, 'vh, 'fh) export_state \<Rightarrow> ('m, 'vh, 'fh) export_state" where
  "do_end builder st =
     \<lparr>mesh = builder_end builder (mesh st), calls = calls st @ [Call_end]\<rparr>"

definition do_addVertex ::
  "('m, 'vh, 'fh) Builder \<Rightarrow> Vector3 \<Rightarrow> int option \<Rightarrow> Vector3 option \<Rightarrow>
   ('m, 'vh, 'fh) export_state \<Rightarrow> 'vh \<times> ('m, 'vh, 'fh) export_state" where
  "do_addVertex builder p i n st =
     (let (vx, m) = addVertex builder p i n (mesh st)
      in (vx, \<lparr>mesh = m, calls = calls st @ [Call_addVertex p i n vx]\<rparr>))"

definition do_addFace ::
  "('m, 'vh, 'fh) Builder \<Rightarrow> 'vh list \<Rightarrow>
   ('m, 'vh, 'fh) export_state \<Rightarrow> 'fh \<times> ('m, 'vh, 'fh) export_state" where
  "do_addFace builder vx st =
     (let (face, m) = addFace builder vx (mesh st)
      in (face, \<lparr>mesh = m, calls = calls st @ [Call_addFace vx face]\<rparr>))"

subsection \<open>Export from the Bloomenthal polygonizer\<close>

text \<open>
  The polygonizer after \<^verbatim>\<open>march\<close>, as the export reads it: \<^verbatim>\<open>no_vertices()\<close>,
  \<^verbatim>\<open>get_vertex(i)\<close>, \<^verbatim>\<open>get_normal(i)\<close>, \<^verbatim>\<open>no_triangles()\<close> and \<^verbatim>\<open>get_triangle(i)\<close>.
\<close>

record TRIANGLE =
  v0 :: int
  v1 :: int
  v2 :: int

record Polygonizer =
  no_vertices :: nat
  get_vertex :: "nat \<Rightarrow> Vector3"
  get_normal :: "nat \<Rightarrow> Vector3"
  no_triangles :: nat
  get_triangle :: "nat \<Rightarrow> TRIANGLE"

text \<open>The first loop, over the vertex indices still to do; \<open>vertices\<close> is the handle array.\<close>

fun add_vertices ::
  "('m, 'vh, 'fh) Builder \<Rightarrow> Polygonizer \<Rightarrow> nat list \<Rightarrow> ('m, 'vh, 'fh) export_state \<Rightarrow>
   'vh list \<Rightarrow> (error + 'vh list) \<times> ('m, 'vh, 'fh) export_state" where
  "add_vertices builder polygonizer [] st vertices = (Inr vertices, st)"
| "add_vertices builder polygonizer (i # rest) st vertices =
     (let p = get_vertex polygonizer i;
          n = get_normal polygonizer i;
          (vx, st') = do_addVertex builder p (Some (int i)) (Some n) st
      in if \<not> isValidVertexHandle builder vx then (Inl Error_AddVertex_Bloomenthal, st')
         else add_vertices builder polygonizer rest st' (vertices @ [vx]))"

text \<open>The bounds assertion on one triangle, against the size of the handle array.\<close>

definition indices_in_bounds :: "TRIANGLE \<Rightarrow> nat \<Rightarrow> bool" where
  "indices_in_bounds tri sz \<longleftrightarrow>
     v0 tri \<ge> 0 \<and> nat (v0 tri) < sz \<and>
     v1 tri \<ge> 0 \<and> nat (v1 tri) < sz \<and>
     v2 tri \<ge> 0 \<and> nat (v2 tri) < sz"

text \<open>The second loop, over the triangle indices still to do.\<close>

fun add_triangles ::
  "('m, 'vh, 'fh) Builder \<Rightarrow> Polygonizer \<Rightarrow> nat list \<Rightarrow> ('m, 'vh, 'fh) export_state \<Rightarrow>
   'vh list \<Rightarrow> (error + unit) \<times> ('m, 'vh, 'fh) export_state" where
  "add_triangles builder polygonizer [] st vertices = (Inr (), st)"
| "add_triangles builder polygonizer (i # rest) st vertices =
     (let tri = get_triangle polygonizer i
      in if \<not> indices_in_bounds tri (length vertices) then (Inl Assert_IndexOutOfBounds, st)
         else
           (let vx = [vertices ! nat (v0 tri), vertices ! nat (v1 tri), vertices ! nat (v2 tri)];
                (face, st') = do_addFace builder vx st
            in if \<not> isValidFaceHandle builder face then (Inl Error_AddTriangle_Bloomenthal, st')
               else add_triangles builder polygonizer rest st' vertices))"

text \<open>
  \<^verbatim>\<open>exportMesh(polygonizer, dst)\<close>: the result is the outcome and the state of the target
  mesh when the function is left, with the calls made on the builder.
\<close>

definition exportMesh_Bloomenthal ::
  "('m, 'vh, 'fh) Builder \<Rightarrow> Polygonizer \<Rightarrow> 'm \<Rightarrow>
   (error + unit) \<times> ('m, 'vh, 'fh) export_state" where
  "exportMesh_Bloomenthal builder polygonizer dst =
     (let st0 = do_begin builder \<lparr>mesh = dst, calls = []\<rparr>;
          (r1, st1) = add_vertices builder polygonizer [0..<no_vertices polygonizer] st0 []
      in case r1 of
           Inl e \<Rightarrow> (Inl e, st1)
         | Inr vertices \<Rightarrow>
             (let (r2, st2) =
                    add_triangles builder polygonizer [0..<no_triangles polygonizer] st1 vertices
              in case r2 of
                   Inl e \<Rightarrow> (Inl e, st2)
                 | Inr _ \<Rightarrow> (Inr (), do_end builder st2)))"

subsection \<open>Export from a CGAL complex\<close>

text \<open>
  The complex as the export reads it: the finite vertices of its triangulation in
  iteration order, the point of a vertex, \<^verbatim>\<open>cell->vertex(i)\<close>, and the facets of the
  surface complex in iteration order, each a cell with the index of the opposite vertex.
\<close>

record ('v, 'c) C3t3 =
  finite_vertices :: "'v list"
  point :: "'v \<Rightarrow> Vector3"
  vertex :: "'c \<Rightarrow> int \<Rightarrow> 'v"
  facets_in_complex :: "('c \<times> int) list"

text \<open>\<^verbatim>\<open>Vector3((Real)p.x(), (Real)p.y(), (Real)p.z())\<close> for a point of the triangulation.\<close>

definition Vector3_of_point :: "(real \<Rightarrow> real) \<Rightarrow> Vector3 \<Rightarrow> Vector3" where
  "Vector3_of_point to_Real p = (case p of (px, py, pz) \<Rightarrow> (to_Real px, to_Real py, to_Real pz))"

text \<open>The first loop: every finite vertex is added and entered into \<open>vmap\<close>.\<close>

fun add_finite_vertices ::
  "('m, 'vh, 'fh) Builder \<Rightarrow> (real \<Rightarrow> real) \<Rightarrow> ('v, 'c) C3t3 \<Rightarrow> 'v list \<Rightarrow>
   ('m, 'vh, 'fh) export_state \<Rightarrow> ('v \<rightharpoonup> 'vh) \<Rightarrow>
   (error + ('v \<rightharpoonup> 'vh)) \<times> ('m, 'vh, 'fh) export_state" where
  "add_finite_vertices builder to_Real src [] st vmap = (Inr vmap, st)"
| "add_finite_vertices builder to_Real src (vit # rest) st vmap =
     (let p = point src vit;
          (vout, st') = do_addVertex builder (Vector3_of_point to_Real p) None None st
      in if \<not> isValidVertexHandle builder vout then (Inl Error_AddVertex_BoissonnatOudot, st')
         else add_finite_vertices builder to_Real src rest st' (vmap(vit \<mapsto> vout)))"

text \<open>
  The array \<^verbatim>\<open>vertex_indices\<close> after its loop: the indices of 0..3 other than
  \<open>facet_index\<close>, written in increasing order into an array of three. For a facet index
  of 0..3 these are exactly three. The loop has no test for any other facet index: it then
  writes a fourth entry past the end of the array, and the three entries of the array, which
  the code goes on to look up, are 0, 1 and 2.
\<close>

definition facet_vertex_indices :: "int \<Rightarrow> int list" where
  "facet_vertex_indices facet_index = take 3 (filter (\<lambda>i. i \<noteq> facet_index) [0, 1, 2, 3])"

text \<open>The lookup of the facet's vertices in \<open>vmap\<close>, left at the first one that is missing.\<close>

fun lookup_face_vertices ::
  "('v, 'c) C3t3 \<Rightarrow> ('v \<rightharpoonup> 'vh) \<Rightarrow> 'c \<Rightarrow> int list \<Rightarrow> error + 'vh list" where
  "lookup_face_vertices src vmap cell [] = Inr []"
| "lookup_face_vertices src vmap cell (i # rest) =
     (case vmap (vertex src cell i) of
        None \<Rightarrow> Inl Error_UnmappedVertex
      | Some existing \<Rightarrow>
          (case lookup_face_vertices src vmap cell rest of
             Inl e \<Rightarrow> Inl e
           | Inr face_vertices \<Rightarrow> Inr (existing # face_vertices)))"

text \<open>The second loop, over the facets still to do.\<close>

fun add_facets ::
  "('m, 'vh, 'fh) Builder \<Rightarrow> ('v, 'c) C3t3 \<Rightarrow> ('c \<times> int) list \<Rightarrow>
   ('m, 'vh, 'fh) export_state \<Rightarrow> ('v \<rightharpoonup> 'vh) \<Rightarrow>
   (error + unit) \<times> ('m, 'vh, 'fh) export_state" where
  "add_facets builder src [] st vmap = (Inr (), st)"
| "add_facets builder src (fit # rest) st vmap =
     (let cell = fst fit; facet_index = snd fit;
          vertex_indices = facet_vertex_indices facet_index
      in case lookup_face_vertices src vmap cell vertex_indices of
           Inl e \<Rightarrow> (Inl e, st)
         | Inr face_vertices \<Rightarrow>
             (let (face, st') = do_addFace builder face_vertices st
              in if \<not> isValidFaceHandle builder face
                 then (Inl Error_AddTriangle_BoissonnatOudot, st')
                 else add_facets builder src rest st' vmap))"

text \<open>\<^verbatim>\<open>exportMesh(src, dst)\<close> for a complex.\<close>

definition exportMesh_C3t3 ::
  "('m, 'vh, 'fh) Builder \<Rightarrow> (real \<Rightarrow> real) \<Rightarrow> ('v, 'c) C3t3 \<Rightarrow> 'm \<Rightarrow>
   (error + unit) \<times> ('m, 'vh, 'fh) export_state" where
  "exportMesh_C3t3 builder to_Real src dst =
     (let st0 = do_begin builder \<lparr>mesh = dst, calls = []\<rparr>;
          (r1, st1) = add_finite_vertices builder to_Real src (finite_vertices src) st0 Map.empty
      in case r1 of
           Inl e \<Rightarrow> (Inl e, st1)
         | Inr vmap \<Rightarrow>
             (let (r2, st2) = add_facets builder src (facets_in_complex src) st1 vmap
              in case r2 of
                   Inl e \<Rightarrow> (Inl e, st2)
                 | Inr _ \<Rightarrow> (Inr (), do_end builder st2)))"

subsection \<open>Entry points\<close>

text \<open>
  The arguments \<^verbatim>\<open>meshBloomenthal\<close> constructs the polygonizer with: the cell size and the
  bound on the search steps.
\<close>

definition Bloomenthal_size :: "(real \<Rightarrow> real) \<Rightarrow> Bloomenthal \<Rightarrow> Ball3 \<Rightarrow> real" where
  "Bloomenthal_size to_float options bounding_ball =
     to_float (if cell_size options < 0 then getRadius bounding_ball / 10
               else cell_size options)"

definition Bloomenthal_bounds :: "Bloomenthal \<Rightarrow> int" where
  "Bloomenthal_bounds options =
     (if max_search_steps options < 0 then 10 else max_search_steps options)"

text \<open>
  \<^verbatim>\<open>meshBloomenthal\<close>. The parameter \<open>march\<close> stands for constructing the polygonizer from
  the evaluator, the size and the bounds and running \<^verbatim>\<open>march\<close> from the given point; it
  yields the polygonizer the export reads.
\<close>

definition meshBloomenthal ::
  "(real \<Rightarrow> real) \<Rightarrow>
   ('f BloomenthalEval \<Rightarrow> real \<Rightarrow> int \<Rightarrow> bool \<Rightarrow> Vector3 \<Rightarrow> Polygonizer) \<Rightarrow>
   ('m, 'vh, 'fh) Builder \<Rightarrow>
   'f option \<Rightarrow> Ball3 \<Rightarrow> Vector3 \<Rightarrow> Bloomenthal \<Rightarrow> 'm \<Rightarrow>
   (error + unit) \<times> ('m, 'vh, 'fh) export_state" where
  "meshBloomenthal to_float march builder surface_functor bounding_ball pt_near_surface
       options result =
     (case BloomenthalEval_ctor surface_functor of
        Inl e \<Rightarrow> (Inl e, \<lparr>mesh = result, calls = []\<rparr>)
      | Inr func \<Rightarrow>
          (let size = Bloomenthal_size to_float options bounding_ball;
               bounds = Bloomenthal_bounds options;
               (x, y, z) = pt_near_surface;
               polygonizer =
                 march func size bounds (tetrahedralize_cubes options)
                   (to_float x, to_float y, to_float z)
           in exportMesh_Bloomenthal builder polygonizer result))"

text \<open>The criteria \<^verbatim>\<open>meshBoissonnatOudot\<close> hands to CGAL.\<close>

record Mesh_criteria =
  facet_angle :: real
  facet_size :: real
  facet_distance :: real
  cell_radius_edge_ratio :: real

definition BoissonnatOudot_criteria :: "(real \<Rightarrow> real) \<Rightarrow> BoissonnatOudot \<Rightarrow> Mesh_criteria" where
  "BoissonnatOudot_criteria radiansToDegrees options =
     \<lparr>facet_angle =
        (if min_facet_angle options < 0 then 30
         else radiansToDegrees (min_facet_angle options)),
      facet_size =
        (if min_delaunay_radius options < 0 then 0.1 else min_delaunay_radius options),
      facet_distance =
        (if min_center_separation options < 0 then 0.1 else min_center_separation options),
      cell_radius_edge_ratio = 2.0\<rparr>"

text \<open>
  \<^verbatim>\<open>meshBoissonnatOudot\<close>. The parameters \<open>create_implicit_mesh_domain\<close> and \<open>make_mesh_3\<close>
  stand for CGAL; the bounding sphere is a centre and a squared radius.
\<close>

definition meshBoissonnatOudot ::
  "(real \<Rightarrow> real) \<Rightarrow> (real \<Rightarrow> real) \<Rightarrow>
   ('f CgalEval \<Rightarrow> Vector3 \<times> real \<Rightarrow> 'd) \<Rightarrow>
   ('d \<Rightarrow> Mesh_criteria \<Rightarrow> ('v, 'c) C3t3) \<Rightarrow>
   ('m, 'vh, 'fh) Builder \<Rightarrow>
   'f option \<Rightarrow> Ball3 \<Rightarrow> BoissonnatOudot \<Rightarrow> 'm \<Rightarrow>
   (error + unit) \<times> ('m, 'vh, 'fh) export_state" where
  "meshBoissonnatOudot radiansToDegrees to_Real create_implicit_mesh_domain make_mesh_3 builder
       surface_functor bounding_ball options result =
     (let func = CgalEval_ctor surface_functor;
          center = getCenter bounding_ball;
          radius = getRadius bounding_ball;
          bounding_sphere = (center, radius * radius);
          domain = create_implicit_mesh_domain func bounding_sphere;
          criteria = BoissonnatOudot_criteria radiansToDegrees options;
          c3t3 = make_mesh_3 domain criteria
      in exportMesh_C3t3 builder to_Real c3t3 result)"

subsection \<open>Reading the record of calls\<close>

text \<open>The \<^verbatim>\<open>addVertex\<close> calls of a record, each as its arguments and the handle it returned,
  and the same for \<^verbatim>\<open>addFace\<close>, in call order.\<close>

fun vertex_calls ::
  "('vh, 'fh) call list \<Rightarrow> ((Vector3 \<times> int option \<times> Vector3 option) \<times> 'vh) list" where
  "vertex_calls [] = []"
| "vertex_calls (Call_addVertex p i n vx # cs) = ((p, i, n), vx) # vertex_calls cs"
| "vertex_calls (c # cs) = vertex_calls cs"

fun face_calls :: "('vh, 'fh) call list \<Rightarrow> ('vh list \<times> 'fh) list" where
  "face_calls [] = []"
| "face_calls (Call_addFace vx face # cs) = (vx, face) # face_calls cs"
| "face_calls (c # cs) = face_calls cs"

text \<open>A call is rejected when it is an insertion whose returned handle the builder calls
  invalid.\<close>

fun rejected :: "('m, 'vh, 'fh) Builder \<Rightarrow> ('vh, 'fh) call \<Rightarrow> bool" where
  "rejected builder (Call_addVertex p i n vx) = (\<not> isValidVertexHandle builder vx)"
| "rejected builder (Call_addFace vx face) = (\<not> isValidFaceHandle builder face)"
| "rejected builder c = False"

text \<open>What a recorded call does to the target mesh, and a list of calls in order.\<close>

fun apply_call :: "('m, 'vh, 'fh) Builder \<Rightarrow> ('vh, 'fh) call \<Rightarrow> 'm \<Rightarrow> 'm" where
  "apply_call builder Call_begin m = builder_begin builder m"
| "apply_call builder (Call_addVertex p i n vx) m = snd (addVertex builder p i n m)"
| "apply_call builder (Call_addFace vx face) m = snd (addFace builder vx m)"
| "apply_call builder Call_end m = builder_end builder m"

fun replay :: "('m, 'vh, 'fh) Builder \<Rightarrow> ('vh, 'fh) call list \<Rightarrow> 'm \<Rightarrow> 'm" where
  "replay builder [] m = m"
| "replay builder (c # cs) m = replay builder cs (apply_call builder c m)"

text \<open>The handle recorded with an insertion is the one the builder returns for it on the
  mesh \<open>m\<close>; and the same for every call of a list made in order from \<open>m\<close> on.\<close>

fun returned_ok :: "('m, 'vh, 'fh) Builder \<Rightarrow> ('vh, 'fh) call \<Rightarrow> 'm \<Rightarrow> bool" where
  "returned_ok builder (Call_addVertex p i n vx) m = (vx = fst (addVertex builder p i n m))"
| "returned_ok builder (Call_addFace vx face) m = (face = fst (addFace builder vx m))"
| "returned_ok builder c m = True"

fun returned_by :: "('m, 'vh, 'fh) Builder \<Rightarrow> ('vh, 'fh) call list \<Rightarrow> 'm \<Rightarrow> bool" where
  "returned_by builder [] m = True"
| "returned_by builder (c # cs) m =
     (returned_ok builder c m \<and> returned_by builder cs (apply_call builder c m))"

text \<open>The call the Bloomenthal export makes for raw vertex \<open>i\<close>, with the handle \<open>vx\<close> it
  got back, and the call it makes for raw triangle \<open>k\<close> given the handle array.\<close>

definition raw_vertex_args :: "Polygonizer \<Rightarrow> nat \<Rightarrow> Vector3 \<times> int option \<times> Vector3 option" where
  "raw_vertex_args polygonizer i =
     (get_vertex polygonizer i, Some (int i), Some (get_normal polygonizer i))"

definition raw_vertex_call :: "Polygonizer \<Rightarrow> nat \<Rightarrow> 'vh \<Rightarrow> ('vh, 'fh) call" where
  "raw_vertex_call polygonizer i vx =
     Call_addVertex (get_vertex polygonizer i) (Some (int i)) (Some (get_normal polygonizer i)) vx"

definition triangle_handles :: "'vh list \<Rightarrow> TRIANGLE \<Rightarrow> 'vh list" where
  "triangle_handles vertices tri =
     [vertices ! nat (v0 tri), vertices ! nat (v1 tri), vertices ! nat (v2 tri)]"

definition raw_triangle_call ::
  "Polygonizer \<Rightarrow> 'vh list \<Rightarrow> nat \<Rightarrow> 'fh \<Rightarrow> ('vh, 'fh) call" where
  "raw_triangle_call polygonizer vertices k face =
     Call_addFace (triangle_handles vertices (get_triangle polygonizer k)) face"

text \<open>The same for the export of a complex: the call for a finite vertex, the identity
  map after \<^verbatim>\<open>vmap[v] = h\<close> for the vertices \<open>vs\<close> and the handles \<open>hs\<close> in order, the
  vertices the export looks up for a facet (\<^verbatim>\<open>cell->vertex(vertex_indices[i])\<close>) and the call
  for it.\<close>

definition finite_vertex_args ::
  "(real \<Rightarrow> real) \<Rightarrow> ('v, 'c) C3t3 \<Rightarrow> 'v \<Rightarrow> Vector3 \<times> int option \<times> Vector3 option" where
  "finite_vertex_args to_Real src v = (Vector3_of_point to_Real (point src v), None, None)"

definition finite_vertex_call ::
  "(real \<Rightarrow> real) \<Rightarrow> ('v, 'c) C3t3 \<Rightarrow> 'v \<Rightarrow> 'vh \<Rightarrow> ('vh, 'fh) call" where
  "finite_vertex_call to_Real src v vout =
     Call_addVertex (Vector3_of_point to_Real (point src v)) None None vout"

definition identity_map :: "('v \<rightharpoonup> 'vh) \<Rightarrow> 'v list \<Rightarrow> 'vh list \<Rightarrow> ('v \<rightharpoonup> 'vh)" where
  "identity_map vmap vs hs = foldl (\<lambda>m (v, h). m(v \<mapsto> h)) vmap (zip vs hs)"

definition facet_corners :: "('v, 'c) C3t3 \<Rightarrow> 'c \<times> int \<Rightarrow> 'v list" where
  "facet_corners src fit = map (vertex src (fst fit)) (facet_vertex_indices (snd fit))"

definition facet_handles :: "('v, 'c) C3t3 \<Rightarrow> ('v \<rightharpoonup> 'vh) \<Rightarrow> 'c \<times> int \<Rightarrow> 'vh list" where
  "facet_handles src vmap fit = map (\<lambda>v. the (vmap v)) (facet_corners src fit)"

definition facet_call ::
  "('v, 'c) C3t3 \<Rightarrow> ('v \<rightharpoonup> 'vh) \<Rightarrow> 'c \<times> int \<Rightarrow> 'fh \<Rightarrow> ('vh, 'fh) call" where
  "facet_call src vmap fit face = Call_addFace (facet_handles src vmap fit) face"

subsection \<open>Concrete inputs\<close>

text \<open>
  A small target mesh to run the exports on: a list of vertex positions and a list of
  faces, handles being positions in those lists, with room for \<open>vcap\<close> vertices and
  \<open>fcap\<close> faces; an insertion beyond that changes nothing and returns the handle \<open>-1\<close>.
\<close>

definition list_builder :: "nat \<Rightarrow> nat \<Rightarrow> (Vector3 list \<times> int list list, int, int) Builder" where
  "list_builder vcap fcap =
     \<lparr>builder_begin = (\<lambda>m. m),
      builder_end = (\<lambda>m. m),
      addVertex = (\<lambda>p i n m.
        if length (fst m) < vcap then (int (length (fst m)), (fst m @ [p], snd m))
        else (- 1, m)),
      isValidVertexHandle = (\<lambda>h. 0 \<le> h),
      addFace = (\<lambda>vx m.
        if length (snd m) < fcap then (int (length (snd m)), (fst m, snd m @ [vx]))
        else (- 1, m)),
      isValidFaceHandle = (\<lambda>h. 0 \<le> h)\<rparr>"

text \<open>A polygonizer holding \<open>nv\<close> vertices on the x axis and the one triangle \<open>(a, b, c)\<close>.\<close>

definition one_triangle :: "nat \<Rightarrow> int \<Rightarrow> int \<Rightarrow> int \<Rightarrow> Polygonizer" where
  "one_triangle nv a b c =
     \<lparr>no_vertices = nv,
      get_vertex = (\<lambda>i. (real i, 0, 0)),
      get_normal = (\<lambda>i. (0, 0, 1)),
      no_triangles = 1,
      get_triangle = (\<lambda>i. \<lparr>v0 = a, v1 = b, v2 = c\<rparr>)\<rparr>"


definition empty_polygonizer :: Polygonizer where
  "empty_polygonizer =
     \<lparr>no_vertices = 0,
      get_vertex = (\<lambda>i. (0, 0, 0)),
      get_normal = (\<lambda>i. (0, 0, 0)),
      no_triangles = 0,
      get_triangle = (\<lambda>i. \<lparr>v0 = 0, v1 = 0, v2 = 0\<rparr>)\<rparr>"

text \<open>
  A complex whose vertices are numbers: the finite vertices are \<open>fv\<close>, the only cell has
  the corners 0, 1, 2 and 3, and the surface facets are \<open>fs\<close>.
\<close>

definition one_cell :: "nat list \<Rightarrow> (unit \<times> int) list \<Rightarrow> (nat, unit) C3t3" where
  "one_cell fv fs =
     \<lparr>finite_vertices = fv,
      point = (\<lambda>v. (real v, 0, 0)),
      vertex = (\<lambda>c i. nat i),
      facets_in_complex = fs\<rparr>"

section \<open>Auxiliary facts\<close>

lemma replay_append: "replay b (cs @ ds) m = replay b ds (replay b cs m)"
  by (induction cs arbitrary: m) auto

lemma vertex_calls_append: "vertex_calls (cs @ ds) = vertex_calls cs @ vertex_calls ds"
  by (induction cs rule: vertex_calls.induct) auto

lemma face_calls_append: "face_calls (cs @ ds) = face_calls cs @ face_calls ds"
  by (induction cs rule: face_calls.induct) auto

lemma do_addVertex_eq:
  "do_addVertex b p i n st =
     (fst (addVertex b p i n (mesh st)),
      \<lparr>mesh = snd (addVertex b p i n (mesh st)),
       calls = calls st @ [Call_addVertex p i n (fst (addVertex b p i n (mesh st)))]\<rparr>)"
  by (simp add: do_addVertex_def split: prod.splits)

lemma do_addFace_eq:
  "do_addFace b vx st =
     (fst (addFace b vx (mesh st)),
      \<lparr>mesh = snd (addFace b vx (mesh st)),
       calls = calls st @ [Call_addFace vx (fst (addFace b vx (mesh st)))]\<rparr>)"
  by (simp add: do_addFace_def split: prod.splits)

lemma add_vertices_shape:
  "add_vertices b P js st vs = (r, st') \<Longrightarrow>
   \<exists>hs. length hs \<le> length js \<and>
        calls st' = calls st @ map2 (raw_vertex_call P) js hs \<and>
        mesh st' = replay b (map2 (raw_vertex_call P) js hs) (mesh st) \<and>
        (\<forall>h\<in>set (butlast hs). isValidVertexHandle b h) \<and>
        (case r of
           Inr vs' \<Rightarrow> vs' = vs @ hs \<and> length hs = length js \<and>
                      (\<forall>h\<in>set hs. isValidVertexHandle b h)
         | Inl e \<Rightarrow> e = Error_AddVertex_Bloomenthal \<and> hs \<noteq> [] \<and>
                    \<not> isValidVertexHandle b (last hs))"
proof (induction js arbitrary: st vs)
  case Nil
  then show ?case by auto
next
  case (Cons i js)
  define vx where "vx = fst (addVertex b (get_vertex P i) (Some (int i)) (Some (get_normal P i)) (mesh st))"
  define st1 where "st1 = snd (do_addVertex b (get_vertex P i) (Some (int i)) (Some (get_normal P i)) st)"
  have st1: "calls st1 = calls st @ [raw_vertex_call P i vx]"
    "mesh st1 = apply_call b (raw_vertex_call P i vx) (mesh st)"
    by (simp_all add: st1_def vx_def do_addVertex_eq raw_vertex_call_def)
  show ?case
  proof (cases "isValidVertexHandle b vx")
    case False
    with Cons.prems have "r = Inl Error_AddVertex_Bloomenthal" "st' = st1"
      by (auto simp: Let_def do_addVertex_eq st1_def vx_def)
    with False st1 show ?thesis
      by (intro exI[of _ "[vx]"]) simp
  next
    case True
    with Cons.prems have "add_vertices b P js st1 (vs @ [vx]) = (r, st')"
      by (auto simp: Let_def do_addVertex_eq st1_def vx_def)
    from Cons.IH[OF this] obtain hs where hs:
      "length hs \<le> length js"
      "calls st' = calls st1 @ map2 (raw_vertex_call P) js hs"
      "mesh st' = replay b (map2 (raw_vertex_call P) js hs) (mesh st1)"
      "\<forall>h\<in>set (butlast hs). isValidVertexHandle b h"
      "case r of
           Inr vs' \<Rightarrow> vs' = (vs @ [vx]) @ hs \<and> length hs = length js \<and>
                      (\<forall>h\<in>set hs. isValidVertexHandle b h)
         | Inl e \<Rightarrow> e = Error_AddVertex_Bloomenthal \<and> hs \<noteq> [] \<and>
                    \<not> isValidVertexHandle b (last hs)"
      by blast
    show ?thesis
      using hs st1 True
      by (intro exI[of _ "vx # hs"]) (auto split: sum.splits)
  qed
qed


lemma add_triangles_shape:
  "add_triangles b P js st vs = (r, st') \<Longrightarrow>
   \<exists>fs. length fs \<le> length js \<and>
        calls st' = calls st @ map2 (raw_triangle_call P vs) js fs \<and>
        mesh st' = replay b (map2 (raw_triangle_call P vs) js fs) (mesh st) \<and>
        (\<forall>f\<in>set (butlast fs). isValidFaceHandle b f) \<and>
        (\<forall>k\<in>set (take (length fs) js). indices_in_bounds (get_triangle P k) (length vs)) \<and>
        (case r of
           Inr u \<Rightarrow> length fs = length js \<and> (\<forall>f\<in>set fs. isValidFaceHandle b f)
         | Inl e \<Rightarrow>
             (e = Error_AddTriangle_Bloomenthal \<and> fs \<noteq> [] \<and> \<not> isValidFaceHandle b (last fs)) \<or>
             (e = Assert_IndexOutOfBounds \<and> length fs < length js \<and>
              \<not> indices_in_bounds (get_triangle P (js ! length fs)) (length vs) \<and>
              (\<forall>f\<in>set fs. isValidFaceHandle b f)))"
proof (induction js arbitrary: st)
  case Nil
  then show ?case by auto
next
  case (Cons k js)
  let ?tri = "get_triangle P k"
  show ?case
  proof (cases "indices_in_bounds ?tri (length vs)")
    case False
    with Cons.prems have "r = Inl Assert_IndexOutOfBounds" "st' = st"
      by (auto simp: Let_def)
    with False show ?thesis
      by (intro exI[of _ "[]"]) simp
  next
    case inb: True
    define face where "face = fst (addFace b (triangle_handles vs ?tri) (mesh st))"
    define st1 where "st1 = snd (do_addFace b (triangle_handles vs ?tri) st)"
    have st1: "calls st1 = calls st @ [raw_triangle_call P vs k face]"
      "mesh st1 = apply_call b (raw_triangle_call P vs k face) (mesh st)"
      by (simp_all add: st1_def face_def do_addFace_eq raw_triangle_call_def)
    show ?thesis
    proof (cases "isValidFaceHandle b face")
      case False
      with Cons.prems inb have "r = Inl Error_AddTriangle_Bloomenthal" "st' = st1"
        by (auto simp: Let_def do_addFace_eq st1_def face_def triangle_handles_def)
      with False st1 inb show ?thesis
        by (intro exI[of _ "[face]"]) simp
    next
      case True
      with Cons.prems inb have "add_triangles b P js st1 vs = (r, st')"
        by (auto simp: Let_def do_addFace_eq st1_def face_def triangle_handles_def)
      from Cons.IH[OF this] obtain fs where fs:
        "length fs \<le> length js"
        "calls st' = calls st1 @ map2 (raw_triangle_call P vs) js fs"
        "mesh st' = replay b (map2 (raw_triangle_call P vs) js fs) (mesh st1)"
        "\<forall>f\<in>set (butlast fs). isValidFaceHandle b f"
        "\<forall>k\<in>set (take (length fs) js). indices_in_bounds (get_triangle P k) (length vs)"
        "case r of
           Inr u \<Rightarrow> length fs = length js \<and> (\<forall>f\<in>set fs. isValidFaceHandle b f)
         | Inl e \<Rightarrow>
             (e = Error_AddTriangle_Bloomenthal \<and> fs \<noteq> [] \<and> \<not> isValidFaceHandle b (last fs)) \<or>
             (e = Assert_IndexOutOfBounds \<and> length fs < length js \<and>
              \<not> indices_in_bounds (get_triangle P (js ! length fs)) (length vs) \<and>
              (\<forall>f\<in>set fs. isValidFaceHandle b f))"
        by blast
      show ?thesis
        using fs st1 True inb
        by (intro exI[of _ "face # fs"]) (auto split: sum.splits)
    qed
  qed
qed

lemma identity_map_Cons:
  "identity_map vmap (v # vs) (h # hs) = identity_map (vmap(v \<mapsto> h)) vs hs"
  by (simp add: identity_map_def)

lemma identity_map_Nil [simp]: "identity_map vmap [] hs = vmap" "identity_map vmap vs [] = vmap"
  by (simp_all add: identity_map_def)

lemma add_finite_vertices_shape:
  "add_finite_vertices b toR src vs st vmap = (r, st') \<Longrightarrow>
   \<exists>hs. length hs \<le> length vs \<and>
        calls st' = calls st @ map2 (finite_vertex_call toR src) vs hs \<and>
        mesh st' = replay b (map2 (finite_vertex_call toR src) vs hs) (mesh st) \<and>
        (\<forall>h\<in>set (butlast hs). isValidVertexHandle b h) \<and>
        (case r of
           Inr vmap' \<Rightarrow> vmap' = identity_map vmap vs hs \<and> length hs = length vs \<and>
                      (\<forall>h\<in>set hs. isValidVertexHandle b h)
         | Inl e \<Rightarrow> e = Error_AddVertex_BoissonnatOudot \<and> hs \<noteq> [] \<and>
                    \<not> isValidVertexHandle b (last hs))"
proof (induction vs arbitrary: st vmap)
  case Nil
  then show ?case by auto
next
  case (Cons v vs)
  let ?p = "Vector3_of_point toR (point src v)"
  define vout where "vout = fst (addVertex b ?p None None (mesh st))"
  define st1 where "st1 = snd (do_addVertex b ?p None None st)"
  have st1: "calls st1 = calls st @ [finite_vertex_call toR src v vout]"
    "mesh st1 = apply_call b (finite_vertex_call toR src v vout) (mesh st)"
    by (simp_all add: st1_def vout_def do_addVertex_eq finite_vertex_call_def)
  show ?case
  proof (cases "isValidVertexHandle b vout")
    case False
    with Cons.prems have "r = Inl Error_AddVertex_BoissonnatOudot" "st' = st1"
      by (auto simp: Let_def do_addVertex_eq st1_def vout_def)
    with False st1 show ?thesis
      by (intro exI[of _ "[vout]"]) simp
  next
    case True
    with Cons.prems have "add_finite_vertices b toR src vs st1 (vmap(v \<mapsto> vout)) = (r, st')"
      by (auto simp: Let_def do_addVertex_eq st1_def vout_def)
    from Cons.IH[OF this] obtain hs where hs:
      "length hs \<le> length vs"
      "calls st' = calls st1 @ map2 (finite_vertex_call toR src) vs hs"
      "mesh st' = replay b (map2 (finite_vertex_call toR src) vs hs) (mesh st1)"
      "\<forall>h\<in>set (butlast hs). isValidVertexHandle b h"
      "case r of
           Inr vmap' \<Rightarrow> vmap' = identity_map (vmap(v \<mapsto> vout)) vs hs \<and> length hs = length vs \<and>
                      (\<forall>h\<in>set hs. isValidVertexHandle b h)
         | Inl e \<Rightarrow> e = Error_AddVertex_BoissonnatOudot \<and> hs \<noteq> [] \<and>
                    \<not> isValidVertexHandle b (last hs)"
      by blast
    show ?thesis
      using hs st1 True
      by (intro exI[of _ "vout # hs"]) (auto split: sum.splits simp: identity_map_Cons)
  qed
qed



lemma lookup_face_vertices_eq:
  "lookup_face_vertices src vmap cell js =
     (if set (map (vertex src cell) js) \<subseteq> dom vmap
      then Inr (map (\<lambda>v. the (vmap v)) (map (vertex src cell) js))
      else Inl Error_UnmappedVertex)"
  by (induction js) (auto split: option.splits sum.splits)

lemma add_facets_shape:
  "add_facets b src fits st vmap = (r, st') \<Longrightarrow>
   \<exists>fs. length fs \<le> length fits \<and>
        calls st' = calls st @ map2 (facet_call src vmap) fits fs \<and>
        mesh st' = replay b (map2 (facet_call src vmap) fits fs) (mesh st) \<and>
        (\<forall>f\<in>set (butlast fs). isValidFaceHandle b f) \<and>
        (\<forall>fit\<in>set (take (length fs) fits). set (facet_corners src fit) \<subseteq> dom vmap) \<and>
        (case r of
           Inr u \<Rightarrow> length fs = length fits \<and> (\<forall>f\<in>set fs. isValidFaceHandle b f)
         | Inl e \<Rightarrow>
             (e = Error_AddTriangle_BoissonnatOudot \<and> fs \<noteq> [] \<and>
              \<not> isValidFaceHandle b (last fs)) \<or>
             (e = Error_UnmappedVertex \<and> length fs < length fits \<and>
              (\<forall>f\<in>set fs. isValidFaceHandle b f) \<and>
              \<not> set (facet_corners src (fits ! length fs)) \<subseteq> dom vmap))"
proof (induction fits arbitrary: st)
  case Nil
  then show ?case by auto
next
  case (Cons fit fits)
  show ?case
  proof (cases "set (facet_corners src fit) \<subseteq> dom vmap")
    case False
    with Cons.prems have "r = Inl Error_UnmappedVertex" "st' = st"
      by (auto simp: Let_def lookup_face_vertices_eq facet_corners_def simp del: set_map)
    with False show ?thesis
      by (intro exI[of _ "[]"]) simp
  next
    case mapped: True
    define face where "face = fst (addFace b (facet_handles src vmap fit) (mesh st))"
    define st1 where "st1 = snd (do_addFace b (facet_handles src vmap fit) st)"
    have st1: "calls st1 = calls st @ [facet_call src vmap fit face]"
      "mesh st1 = apply_call b (facet_call src vmap fit face) (mesh st)"
      by (simp_all add: st1_def face_def do_addFace_eq facet_call_def)
    have step: "add_facets b src (fit # fits) st vmap =
        (if \<not> isValidFaceHandle b face then (Inl Error_AddTriangle_BoissonnatOudot, st1)
         else add_facets b src fits st1 vmap)"
      using mapped
      by (simp add: Let_def lookup_face_vertices_eq facet_corners_def
          facet_handles_def do_addFace_eq st1_def face_def del: set_map)
    show ?thesis
    proof (cases "isValidFaceHandle b face")
      case False
      with Cons.prems step have "r = Inl Error_AddTriangle_BoissonnatOudot" "st' = st1"
        by auto
      with False st1 mapped show ?thesis
        by (intro exI[of _ "[face]"]) simp
    next
      case True
      with Cons.prems step have "add_facets b src fits st1 vmap = (r, st')"
        by auto
      from Cons.IH[OF this] obtain fs where fs:
        "length fs \<le> length fits"
        "calls st' = calls st1 @ map2 (facet_call src vmap) fits fs"
        "mesh st' = replay b (map2 (facet_call src vmap) fits fs) (mesh st1)"
        "\<forall>f\<in>set (butlast fs). isValidFaceHandle b f"
        "\<forall>fit\<in>set (take (length fs) fits). set (facet_corners src fit) \<subseteq> dom vmap"
        "case r of
           Inr u \<Rightarrow> length fs = length fits \<and> (\<forall>f\<in>set fs. isValidFaceHandle b f)
         | Inl e \<Rightarrow>
             (e = Error_AddTriangle_BoissonnatOudot \<and> fs \<noteq> [] \<and>
              \<not> isValidFaceHandle b (last fs)) \<or>
             (e = Error_UnmappedVertex \<and> length fs < length fits \<and>
              (\<forall>f\<in>set fs. isValidFaceHandle b f) \<and>
              \<not> set (facet_corners src (fits ! length fs)) \<subseteq> dom vmap)"
        by blast
      show ?thesis
        using fs st1 True mapped
        by (intro exI[of _ "face # fs"]) (auto split: sum.splits)
    qed
  qed
qed

lemma calls_of_raw_vertex_call [simp]:
  "vertex_calls (raw_vertex_call P i h # cs) = (raw_vertex_args P i, h) # vertex_calls cs"
  "face_calls (raw_vertex_call P i h # cs) = face_calls cs"
  "rejected b (raw_vertex_call P i h) = (\<not> isValidVertexHandle b h)"
  by (simp_all add: raw_vertex_call_def raw_vertex_args_def)

lemma calls_of_raw_triangle_call [simp]:
  "vertex_calls (raw_triangle_call P vs k f # cs) = vertex_calls cs"
  "face_calls (raw_triangle_call P vs k f # cs) =
     (triangle_handles vs (get_triangle P k), f) # face_calls cs"
  "rejected b (raw_triangle_call P vs k f) = (\<not> isValidFaceHandle b f)"
  by (simp_all add: raw_triangle_call_def)

lemma calls_of_finite_vertex_call [simp]:
  "vertex_calls (finite_vertex_call toR src v h # cs) =
     (finite_vertex_args toR src v, h) # vertex_calls cs"
  "face_calls (finite_vertex_call toR src v h # cs) = face_calls cs"
  "rejected b (finite_vertex_call toR src v h) = (\<not> isValidVertexHandle b h)"
  by (simp_all add: finite_vertex_call_def finite_vertex_args_def)

lemma calls_of_facet_call [simp]:
  "vertex_calls (facet_call src vmap fit f # cs) = vertex_calls cs"
  "face_calls (facet_call src vmap fit f # cs) = (facet_handles src vmap fit, f) # face_calls cs"
  "rejected b (facet_call src vmap fit f) = (\<not> isValidFaceHandle b f)"
  by (simp_all add: facet_call_def)

lemma calls_of_raw_vertex_calls:
  "vertex_calls (map2 (raw_vertex_call P) js hs) = zip (map (raw_vertex_args P) js) hs"
  "face_calls (map2 (raw_vertex_call P) js hs) = []"
proof (induction js arbitrary: hs)
  case Nil
  { case 1 show ?case by simp }
  { case 2 show ?case by simp }
next
  case (Cons j js)
  { case 1 show ?case using Cons.IH(1) by (cases hs) simp_all }
  { case 2 show ?case using Cons.IH(2) by (cases hs) simp_all }
qed

lemma calls_of_raw_triangle_calls:
  "vertex_calls (map2 (raw_triangle_call P vs) ks fs) = []"
  "face_calls (map2 (raw_triangle_call P vs) ks fs) =
     zip (map (\<lambda>k. triangle_handles vs (get_triangle P k)) ks) fs"
proof (induction ks arbitrary: fs)
  case Nil
  { case 1 show ?case by simp }
  { case 2 show ?case by simp }
next
  case (Cons k ks)
  { case 1 show ?case using Cons.IH(1) by (cases fs) simp_all }
  { case 2 show ?case using Cons.IH(2) by (cases fs) simp_all }
qed

lemma calls_of_finite_vertex_calls:
  "vertex_calls (map2 (finite_vertex_call toR src) vs hs) =
     zip (map (finite_vertex_args toR src) vs) hs"
  "face_calls (map2 (finite_vertex_call toR src) vs hs) = []"
proof (induction vs arbitrary: hs)
  case Nil
  { case 1 show ?case by simp }
  { case 2 show ?case by simp }
next
  case (Cons v vs)
  { case 1 show ?case using Cons.IH(1) by (cases hs) simp_all }
  { case 2 show ?case using Cons.IH(2) by (cases hs) simp_all }
qed

lemma calls_of_facet_calls:
  "vertex_calls (map2 (facet_call src vmap) fits fs) = []"
  "face_calls (map2 (facet_call src vmap) fits fs) =
     zip (map (facet_handles src vmap) fits) fs"
proof (induction fits arbitrary: fs)
  case Nil
  { case 1 show ?case by simp }
  { case 2 show ?case by simp }
next
  case (Cons k ks)
  { case 1 show ?case using Cons.IH(1) by (cases fs) simp_all }
  { case 2 show ?case using Cons.IH(2) by (cases fs) simp_all }
qed

lemma map_fst_zip_le: "length ys \<le> length xs \<Longrightarrow> map fst (zip xs ys) = take (length ys) xs"
  by (induction xs arbitrary: ys) (auto, case_tac ys, auto)

lemma map_snd_zip_le: "length ys \<le> length xs \<Longrightarrow> map snd (zip xs ys) = ys"
  by (induction xs arbitrary: ys) (auto, case_tac ys, auto)




lemma exportMesh_Bloomenthal_shape:
  assumes "exportMesh_Bloomenthal b P m = (r, st)"
  obtains hs fs where
    "length hs \<le> no_vertices P" and "length fs \<le> no_triangles P" and
    "calls st = Call_begin # map2 (raw_vertex_call P) [0..<no_vertices P] hs @
       map2 (raw_triangle_call P hs) [0..<no_triangles P] fs @
       (if r = Inr () then [Call_end] else [])" and
    "mesh st = replay b (calls st) m" and
    "fs \<noteq> [] \<longrightarrow> length hs = no_vertices P" and
    "\<forall>k<length fs. indices_in_bounds (get_triangle P k) (no_vertices P)" and
    "r = Inr () \<longrightarrow> length hs = no_vertices P \<and> length fs = no_triangles P" and
    "r = Inl Assert_IndexOutOfBounds \<longrightarrow> length hs = no_vertices P \<and>
       length fs < no_triangles P \<and>
       \<not> indices_in_bounds (get_triangle P (length fs)) (no_vertices P)" and
    "r = Inl Error_AddVertex_Bloomenthal \<longrightarrow> fs = [] \<and> hs \<noteq> [] \<and>
       \<not> isValidVertexHandle b (last hs)" and
    "r = Inl Error_AddTriangle_Bloomenthal \<longrightarrow> fs \<noteq> [] \<and> \<not> isValidFaceHandle b (last fs)" and
    "r \<in> {Inr (), Inl Assert_IndexOutOfBounds, Inl Error_AddVertex_Bloomenthal,
        Inl Error_AddTriangle_Bloomenthal}" and
    "\<forall>h\<in>set (butlast hs). isValidVertexHandle b h" and
    "\<forall>f\<in>set (butlast fs). isValidFaceHandle b f" and
    "r \<noteq> Inl Error_AddVertex_Bloomenthal \<longrightarrow> (\<forall>h\<in>set hs. isValidVertexHandle b h)" and
    "r \<noteq> Inl Error_AddTriangle_Bloomenthal \<longrightarrow> (\<forall>f\<in>set fs. isValidFaceHandle b f)"
proof -
  define st0 where "st0 = do_begin b \<lparr>mesh = m, calls = []\<rparr>"
  have st0: "calls st0 = [Call_begin]" "mesh st0 = builder_begin b m"
    by (simp_all add: st0_def do_begin_def)
  obtain r1 st1 where av: "add_vertices b P [0..<no_vertices P] st0 [] = (r1, st1)"
    by fastforce
  from add_vertices_shape[OF av] obtain hs where hs:
    "length hs \<le> no_vertices P"
    "calls st1 = calls st0 @ map2 (raw_vertex_call P) [0..<no_vertices P] hs"
    "mesh st1 = replay b (map2 (raw_vertex_call P) [0..<no_vertices P] hs) (mesh st0)"
    "\<forall>h\<in>set (butlast hs). isValidVertexHandle b h"
    "case r1 of
       Inr vs' \<Rightarrow> vs' = [] @ hs \<and> length hs = length [0..<no_vertices P] \<and>
                  (\<forall>h\<in>set hs. isValidVertexHandle b h)
     | Inl e \<Rightarrow> e = Error_AddVertex_Bloomenthal \<and> hs \<noteq> [] \<and>
                \<not> isValidVertexHandle b (last hs)"
    by auto
  have rp1: "mesh st1 = replay b (calls st1) m"
    using hs(2,3) st0 by (simp add: replay_append)
  show thesis
  proof (cases r1)
    case (Inl e)
    with assms av have res: "r = Inl e" "st = st1"
      by (simp_all add: exportMesh_Bloomenthal_def Let_def st0_def)
    from Inl hs(5) have e: "e = Error_AddVertex_Bloomenthal" "hs \<noteq> []"
      "\<not> isValidVertexHandle b (last hs)"
      by simp_all
    show thesis
      by (rule that[of hs "[]"]) (use res e hs st0 rp1 in simp_all)
  next
    case (Inr vs)
    with hs(5) have vs: "vs = hs" "length hs = no_vertices P"
      "\<forall>h\<in>set hs. isValidVertexHandle b h"
      by simp_all
    obtain r2 st2 where at: "add_triangles b P [0..<no_triangles P] st1 hs = (r2, st2)"
      by fastforce
    from add_triangles_shape[OF at] obtain fs where fs:
      "length fs \<le> no_triangles P"
      "calls st2 = calls st1 @ map2 (raw_triangle_call P hs) [0..<no_triangles P] fs"
      "mesh st2 = replay b (map2 (raw_triangle_call P hs) [0..<no_triangles P] fs) (mesh st1)"
      "\<forall>f\<in>set (butlast fs). isValidFaceHandle b f"
      "\<forall>k\<in>set (take (length fs) [0..<no_triangles P]).
         indices_in_bounds (get_triangle P k) (length hs)"
      "case r2 of
         Inr u \<Rightarrow> length fs = length [0..<no_triangles P] \<and> (\<forall>f\<in>set fs. isValidFaceHandle b f)
       | Inl e \<Rightarrow>
           (e = Error_AddTriangle_Bloomenthal \<and> fs \<noteq> [] \<and> \<not> isValidFaceHandle b (last fs)) \<or>
           (e = Assert_IndexOutOfBounds \<and> length fs < length [0..<no_triangles P] \<and>
            \<not> indices_in_bounds (get_triangle P ([0..<no_triangles P] ! length fs)) (length hs) \<and>
            (\<forall>f\<in>set fs. isValidFaceHandle b f))"
      by auto
    have rp2: "mesh st2 = replay b (calls st2) m"
      using fs(2,3) rp1 by (simp add: replay_append)
    have inb: "\<forall>k<length fs. indices_in_bounds (get_triangle P k) (no_vertices P)"
      using fs(1,5) vs(2) by (simp add: take_upt)
    show thesis
    proof (cases r2)
      case (Inl e)
      with assms av at Inr vs have res: "r = Inl e" "st = st2"
        by (simp_all add: exportMesh_Bloomenthal_def Let_def st0_def)
      from Inl fs(6) consider
        (tri) "e = Error_AddTriangle_Bloomenthal" "fs \<noteq> []" "\<not> isValidFaceHandle b (last fs)"
      | (idx) "e = Assert_IndexOutOfBounds" "length fs < no_triangles P"
          "\<not> indices_in_bounds (get_triangle P (length fs)) (no_vertices P)"
          "\<forall>f\<in>set fs. isValidFaceHandle b f"
        using vs(2) by auto
      then show thesis
      proof cases
        case tri
        show thesis
          by (rule that[of hs fs]) (use res tri hs fs st0 rp2 vs inb in simp_all)
      next
        case idx
        show thesis
          by (rule that[of hs fs]) (use res idx hs fs st0 rp2 vs inb in simp_all)
      qed
    next
      case (Inr u)
      with assms av at \<open>r1 = Inr vs\<close> vs have res: "r = Inr ()" "st = do_end b st2"
        by (simp_all add: exportMesh_Bloomenthal_def Let_def st0_def)
      from Inr fs(6) have ok: "length fs = no_triangles P" "\<forall>f\<in>set fs. isValidFaceHandle b f"
        by simp_all
      have st: "calls st = calls st2 @ [Call_end]" "mesh st = builder_end b (mesh st2)"
        by (simp_all add: res do_end_def)
      have rp: "mesh st = replay b (calls st) m"
        using st rp2 by (simp add: replay_append)
      show thesis
        by (rule that[of hs fs]) (use res ok hs fs st0 st rp vs inb in simp_all)
    qed
  qed
qed







lemma exportMesh_C3t3_shape:
  assumes "exportMesh_C3t3 b toR src m = (r, st)"
  obtains hs fs where
    "length hs \<le> length (finite_vertices src)" and
    "length fs \<le> length (facets_in_complex src)" and
    "calls st = Call_begin # map2 (finite_vertex_call toR src) (finite_vertices src) hs @
       map2 (facet_call src (identity_map Map.empty (finite_vertices src) hs))
         (facets_in_complex src) fs @
       (if r = Inr () then [Call_end] else [])" and
    "mesh st = replay b (calls st) m" and
    "fs \<noteq> [] \<longrightarrow> length hs = length (finite_vertices src)" and
    "\<forall>fit\<in>set (take (length fs) (facets_in_complex src)).
       set (facet_corners src fit) \<subseteq> dom (identity_map Map.empty (finite_vertices src) hs)" and
    "r = Inr () \<longrightarrow> length hs = length (finite_vertices src) \<and>
       length fs = length (facets_in_complex src)" and
    "r = Inl Error_UnmappedVertex \<longrightarrow> length hs = length (finite_vertices src) \<and>
       length fs < length (facets_in_complex src) \<and>
       \<not> set (facet_corners src (facets_in_complex src ! length fs)) \<subseteq>
         dom (identity_map Map.empty (finite_vertices src) hs)" and
    "r = Inl Error_AddVertex_BoissonnatOudot \<longrightarrow> fs = [] \<and> hs \<noteq> [] \<and>
       \<not> isValidVertexHandle b (last hs)" and
    "r = Inl Error_AddTriangle_BoissonnatOudot \<longrightarrow> fs \<noteq> [] \<and>
       \<not> isValidFaceHandle b (last fs)" and
    "r \<in> {Inr (), Inl Error_UnmappedVertex,
        Inl Error_AddVertex_BoissonnatOudot, Inl Error_AddTriangle_BoissonnatOudot}" and
    "\<forall>h\<in>set (butlast hs). isValidVertexHandle b h" and
    "\<forall>f\<in>set (butlast fs). isValidFaceHandle b f" and
    "r \<noteq> Inl Error_AddVertex_BoissonnatOudot \<longrightarrow> (\<forall>h\<in>set hs. isValidVertexHandle b h)" and
    "r \<noteq> Inl Error_AddTriangle_BoissonnatOudot \<longrightarrow> (\<forall>f\<in>set fs. isValidFaceHandle b f)"
proof -
  let ?fv = "finite_vertices src" and ?fits = "facets_in_complex src"
  define st0 where "st0 = do_begin b \<lparr>mesh = m, calls = []\<rparr>"
  have st0: "calls st0 = [Call_begin]" "mesh st0 = builder_begin b m"
    by (simp_all add: st0_def do_begin_def)
  obtain r1 st1 where av: "add_finite_vertices b toR src ?fv st0 Map.empty = (r1, st1)"
    by fastforce
  from add_finite_vertices_shape[OF av] obtain hs where hs:
    "length hs \<le> length ?fv"
    "calls st1 = calls st0 @ map2 (finite_vertex_call toR src) ?fv hs"
    "mesh st1 = replay b (map2 (finite_vertex_call toR src) ?fv hs) (mesh st0)"
    "\<forall>h\<in>set (butlast hs). isValidVertexHandle b h"
    "case r1 of
       Inr vmap' \<Rightarrow> vmap' = identity_map Map.empty ?fv hs \<and> length hs = length ?fv \<and>
                  (\<forall>h\<in>set hs. isValidVertexHandle b h)
     | Inl e \<Rightarrow> e = Error_AddVertex_BoissonnatOudot \<and> hs \<noteq> [] \<and>
                \<not> isValidVertexHandle b (last hs)"
    by auto
  have rp1: "mesh st1 = replay b (calls st1) m"
    using hs(2,3) st0 by (simp add: replay_append)
  show thesis
  proof (cases r1)
    case (Inl e)
    with assms av have res: "r = Inl e" "st = st1"
      by (simp_all add: exportMesh_C3t3_def Let_def st0_def)
    from Inl hs(5) have e: "e = Error_AddVertex_BoissonnatOudot" "hs \<noteq> []"
      "\<not> isValidVertexHandle b (last hs)"
      by simp_all
    show thesis
      by (rule that[of hs "[]"]) (use res e hs st0 rp1 in simp_all)
  next
    case (Inr vmap)
    with hs(5) have vs: "vmap = identity_map Map.empty ?fv hs" "length hs = length ?fv"
      "\<forall>h\<in>set hs. isValidVertexHandle b h"
      by simp_all
    obtain r2 st2 where at: "add_facets b src ?fits st1 vmap = (r2, st2)"
      by fastforce
    from add_facets_shape[OF at] obtain fs where fs:
      "length fs \<le> length ?fits"
      "calls st2 = calls st1 @ map2 (facet_call src vmap) ?fits fs"
      "mesh st2 = replay b (map2 (facet_call src vmap) ?fits fs) (mesh st1)"
      "\<forall>f\<in>set (butlast fs). isValidFaceHandle b f"
      "\<forall>fit\<in>set (take (length fs) ?fits). set (facet_corners src fit) \<subseteq> dom vmap"
      "case r2 of
         Inr u \<Rightarrow> length fs = length ?fits \<and> (\<forall>f\<in>set fs. isValidFaceHandle b f)
       | Inl e \<Rightarrow>
           (e = Error_AddTriangle_BoissonnatOudot \<and> fs \<noteq> [] \<and>
            \<not> isValidFaceHandle b (last fs)) \<or>
           (e = Error_UnmappedVertex \<and> length fs < length ?fits \<and>
            (\<forall>f\<in>set fs. isValidFaceHandle b f) \<and>
            \<not> set (facet_corners src (?fits ! length fs)) \<subseteq> dom vmap)"
      by blast
    have rp2: "mesh st2 = replay b (calls st2) m"
      using fs(2,3) rp1 by (simp add: replay_append)
    note fs' = fs(1-5)[unfolded vs(1)]
    show thesis
    proof (cases r2)
      case (Inl e)
      with assms av at Inr vs have res: "r = Inl e" "st = st2"
        by (simp_all add: exportMesh_C3t3_def Let_def st0_def)
      from Inl fs(6) consider
        (tri) "e = Error_AddTriangle_BoissonnatOudot" "fs \<noteq> []" "\<not> isValidFaceHandle b (last fs)"
      | (unm) "e = Error_UnmappedVertex" "length fs < length ?fits"
          "\<not> set (facet_corners src (?fits ! length fs)) \<subseteq> dom (identity_map Map.empty ?fv hs)"
          "\<forall>f\<in>set fs. isValidFaceHandle b f"
        using vs(1) by auto
      then show thesis
      proof cases
        case tri
        show thesis
          by (rule that[of hs fs]) (use res tri hs fs' st0 rp2 vs(2,3) in simp_all)
      next
        case unm
        show thesis
          by (rule that[of hs fs]) (use res unm hs fs' st0 rp2 vs(2,3) in simp_all)
      qed
    next
      case (Inr u)
      with assms av at \<open>r1 = Inr vmap\<close> vs have res: "r = Inr ()" "st = do_end b st2"
        by (simp_all add: exportMesh_C3t3_def Let_def st0_def)
      from Inr fs(6) have ok: "length fs = length ?fits" "\<forall>f\<in>set fs. isValidFaceHandle b f"
        by simp_all
      have st: "calls st = calls st2 @ [Call_end]" "mesh st = builder_end b (mesh st2)"
        by (simp_all add: res do_end_def)
      have rp: "mesh st = replay b (calls st) m"
        using st rp2 by (simp add: replay_append)
      show thesis
        by (rule that[of hs fs]) (use res ok hs fs' st0 st rp vs(2,3) in simp_all)
    qed
  qed
qed


lemma map2_butlast_not_rejected:
  assumes rej: "\<And>j h. rej (f j h) \<longleftrightarrow> \<not> ok h"
  shows "\<forall>h\<in>set (butlast hs). ok h \<Longrightarrow> length hs \<le> length js \<Longrightarrow>
         \<forall>c\<in>set (butlast (map2 f js hs)). \<not> rej c"
proof (induction js arbitrary: hs)
  case Nil
  then show ?case by simp
next
  case (Cons j js)
  show ?case
  proof (cases hs)
    case Nil
    then show ?thesis by simp
  next
    case hs: (Cons h hs')
    show ?thesis
    proof (cases "hs' = []")
      case True
      with hs show ?thesis by simp
    next
      case False
      with Cons.prems hs have "ok h" "\<forall>h\<in>set (butlast hs'). ok h" "length hs' \<le> length js"
        by simp_all
      with Cons.IH[of hs'] have "\<forall>c\<in>set (butlast (map2 f js hs')). \<not> rej c"
        by simp
      with \<open>ok h\<close> hs rej show ?thesis
        by simp
    qed
  qed
qed

lemma map2_not_rejected:
  assumes rej: "\<And>j h. rej (f j h) \<longleftrightarrow> \<not> ok h"
  shows "\<forall>h\<in>set hs. ok h \<Longrightarrow> \<forall>c\<in>set (map2 f js hs). \<not> rej c"
  using rej by (auto dest: set_zip_rightD)

lemma map2_Nil_iff: "length hs \<le> length js \<Longrightarrow> map2 f js hs = [] \<longleftrightarrow> hs = []"
  by (cases js; cases hs) auto

lemma projections_Bloomenthal:
  assumes "length hs \<le> nv" and "length fs \<le> nt"
    and "cs = Call_begin # map2 (raw_vertex_call P) [0..<nv] hs @
       map2 (raw_triangle_call P vs) [0..<nt] fs @ (if ok then [Call_end] else [])"
  shows "map snd (vertex_calls cs) = hs"
    and "map fst (vertex_calls cs) = map (raw_vertex_args P) [0..<length hs]"
    and "map snd (face_calls cs) = fs"
    and "map fst (face_calls cs) =
           map (\<lambda>k. triangle_handles vs (get_triangle P k)) [0..<length fs]"
  using assms(1,2) unfolding assms(3)
  by (simp_all add: vertex_calls_append face_calls_append calls_of_raw_vertex_calls
      calls_of_raw_triangle_calls map_fst_zip_le map_snd_zip_le take_map take_upt)





lemma addVertex_call_handle:
  "Call_addVertex p i n vx \<in> set cs \<Longrightarrow> vx \<in> set (map snd (vertex_calls cs))"
  by (induction cs rule: vertex_calls.induct) auto

lemma addFace_call_handle:
  "Call_addFace vx face \<in> set cs \<Longrightarrow> face \<in> set (map snd (face_calls cs))"
  by (induction cs rule: face_calls.induct) auto

lemma export_calls_butlast:
  assumes rejf: "\<And>j h. rejected b (f j h) \<longleftrightarrow> \<not> okv h"
    and rejg: "\<And>k x. rejected b (g k x) \<longleftrightarrow> \<not> okf x"
    and len: "length hs \<le> length js" "length fs \<le> length ks"
    and bl: "\<forall>h\<in>set (butlast hs). okv h" "\<forall>x\<in>set (butlast fs). okf x"
    and full: "fs \<noteq> [] \<longrightarrow> (\<forall>h\<in>set hs. okv h)"
    and fin_ok: "fin \<longrightarrow> (\<forall>h\<in>set hs. okv h) \<and> (\<forall>x\<in>set fs. okf x)"
  shows "\<forall>c\<in>set (butlast (Call_begin # map2 f js hs @ map2 g ks fs @
           (if fin then [Call_end] else []))). \<not> rejected b c"
proof (cases fin)
  case True
  with fin_ok have "\<forall>c\<in>set (map2 f js hs). \<not> rejected b c" "\<forall>c\<in>set (map2 g ks fs). \<not> rejected b c"
    using map2_not_rejected[of "rejected b" f okv hs js, OF rejf]
      map2_not_rejected[of "rejected b" g okf fs ks, OF rejg] by blast+
  with True show ?thesis
    by (auto simp: butlast_append)
next
  case nfin: False
  show ?thesis
  proof (cases "fs = []")
    case False
    have ne: "map2 g ks fs \<noteq> []"
      using map2_Nil_iff[of fs ks g] len(2) False by blast
    from False full have "\<forall>c\<in>set (map2 f js hs). \<not> rejected b c"
      using map2_not_rejected[of "rejected b" f okv hs js, OF rejf] by blast
    moreover have "\<forall>c\<in>set (butlast (map2 g ks fs)). \<not> rejected b c"
      using map2_butlast_not_rejected[of "rejected b" g okf fs ks, OF rejg] bl(2) len(2)
      by blast
    ultimately show ?thesis
      using nfin ne by (auto simp: butlast_append)
  next
    case True
    have "\<forall>c\<in>set (butlast (map2 f js hs)). \<not> rejected b c"
      using map2_butlast_not_rejected[of "rejected b" f okv hs js, OF rejf] bl(1) len(1)
      by blast
    with nfin True show ?thesis
      by auto
  qed
qed

lemma projections_C3t3:
  assumes "length hs \<le> length fv" and "length fs \<le> length fits"
    and "cs = Call_begin # map2 (finite_vertex_call toR src) fv hs @
       map2 (facet_call src vmap) fits fs @ (if ok then [Call_end] else [])"
  shows "map snd (vertex_calls cs) = hs"
    and "map fst (vertex_calls cs) = map (finite_vertex_args toR src) (take (length hs) fv)"
    and "map snd (face_calls cs) = fs"
    and "map fst (face_calls cs) = map (facet_handles src vmap) (take (length fs) fits)"
  using assms(1,2) unfolding assms(3)
  by (simp_all add: vertex_calls_append face_calls_append calls_of_finite_vertex_calls
      calls_of_facet_calls map_fst_zip_le map_snd_zip_le take_map)




lemma replay_keeps_content:
  assumes "\<And>c m. content m \<subseteq> content (apply_call b c m)"
  shows "content m \<subseteq> content (replay b cs m)"
proof (induction cs arbitrary: m)
  case Nil
  show ?case by simp
next
  case (Cons c cs)
  have "content m \<subseteq> content (apply_call b c m)"
    by (rule assms)
  also have "\<dots> \<subseteq> content (replay b cs (apply_call b c m))"
    by (rule Cons.IH)
  finally show ?case
    by simp
qed

lemma meshBloomenthal_replay:
  assumes "meshBloomenthal to_float march b surface_functor ball pt options result = (r, st)"
  shows "mesh st = replay b (calls st) result"
proof (cases surface_functor)
  case None
  with assms have "st = \<lparr>mesh = result, calls = []\<rparr>"
    by (simp add: meshBloomenthal_def BloomenthalEval_ctor_def)
  then show ?thesis
    by simp
next
  case (Some f)
  obtain x y z where pt: "pt = (x, y, z)"
    by (cases pt) auto
  from assms Some pt have "exportMesh_Bloomenthal b
      (march \<lparr>bloomenthal_func = Some f\<rparr> (Bloomenthal_size to_float options ball)
         (Bloomenthal_bounds options) (tetrahedralize_cubes options)
         (to_float x, to_float y, to_float z))
      result = (r, st)"
    by (simp add: meshBloomenthal_def BloomenthalEval_ctor_def Let_def)
  then show ?thesis
    by (rule exportMesh_Bloomenthal_shape)
qed

lemma meshBoissonnatOudot_replay:
  assumes "meshBoissonnatOudot radiansToDegrees to_Real create_implicit_mesh_domain make_mesh_3 b
       surface_functor ball options result = (r, st)"
  shows "mesh st = replay b (calls st) result"
proof -
  from assms have "exportMesh_C3t3 b to_Real
      (make_mesh_3
         (create_implicit_mesh_domain (CgalEval_ctor surface_functor)
            (getCenter ball, getRadius ball * getRadius ball))
         (BoissonnatOudot_criteria radiansToDegrees options))
      result = (r, st)"
    by (simp add: meshBoissonnatOudot_def Let_def)
  then show ?thesis
    by (rule exportMesh_C3t3_shape)
qed









lemma returned_by_append:
  "returned_by b (cs @ ds) m \<longleftrightarrow> returned_by b cs m \<and> returned_by b ds (replay b cs m)"
  by (induction cs arbitrary: m) auto

lemma add_vertices_returned:
  "add_vertices b P js st vs = (r, st') \<Longrightarrow> mesh st = replay b (calls st) m0 \<Longrightarrow>
   returned_by b (calls st) m0 \<Longrightarrow> returned_by b (calls st') m0"
  by (induction js arbitrary: st vs)
    (auto simp: Let_def do_addVertex_eq returned_by_append replay_append split: if_splits)

lemma add_triangles_returned:
  "add_triangles b P js st vs = (r, st') \<Longrightarrow> mesh st = replay b (calls st) m0 \<Longrightarrow>
   returned_by b (calls st) m0 \<Longrightarrow> returned_by b (calls st') m0"
  by (induction js arbitrary: st)
    (auto simp: Let_def do_addFace_eq returned_by_append replay_append split: if_splits)



lemma exportMesh_Bloomenthal_returned:
  assumes "exportMesh_Bloomenthal b P m = (r, st)"
  shows "returned_by b (calls st) m"
proof -
  define st0 where "st0 = do_begin b \<lparr>mesh = m, calls = []\<rparr>"
  have st0: "mesh st0 = replay b (calls st0) m" "returned_by b (calls st0) m"
    by (simp_all add: st0_def do_begin_def)
  obtain r1 st1 where av: "add_vertices b P [0..<no_vertices P] st0 [] = (r1, st1)"
    by fastforce
  have st1: "returned_by b (calls st1) m"
    using av st0 by (rule add_vertices_returned)
  have rp1: "mesh st1 = replay b (calls st1) m"
    using add_vertices_shape[OF av] st0(1) by (auto simp: replay_append)
  show ?thesis
  proof (cases r1)
    case (Inl e)
    with assms av have "st = st1"
      by (simp add: exportMesh_Bloomenthal_def Let_def st0_def)
    with st1 show ?thesis
      by simp
  next
    case (Inr vs)
    obtain r2 st2 where at: "add_triangles b P [0..<no_triangles P] st1 vs = (r2, st2)"
      by fastforce
    have st2: "returned_by b (calls st2) m"
      using at rp1 st1 by (rule add_triangles_returned)
    from assms av at Inr have "st = st2 \<or> st = do_end b st2"
      by (auto simp: exportMesh_Bloomenthal_def Let_def st0_def split: sum.splits)
    with st2 show ?thesis
      by (auto simp: do_end_def returned_by_append)
  qed
qed


lemma map2_upt:
  "length hs = n \<Longrightarrow> map2 f [0..<n] hs = map (\<lambda>i. f i (hs ! i)) [0..<n]"
  by (rule nth_equalityI) simp_all



subsection \<open>Runs on concrete inputs\<close>

lemmas run_defs =
  exportMesh_Bloomenthal_def exportMesh_C3t3_def list_builder_def one_triangle_def
  one_cell_def do_begin_def do_end_def do_addVertex_def do_addFace_def
  indices_in_bounds_def facet_vertex_indices_def Vector3_of_point_def Let_def

lemma run_Bloomenthal_ok:
  "exportMesh_Bloomenthal (list_builder 10 10) (one_triangle 3 0 1 2) ([], []) =
     (Inr (),
      \<lparr>mesh = ([(0, 0, 0), (1, 0, 0), (2, 0, 0)], [[0, 1, 2]]),
       calls =
         [Call_begin, Call_addVertex (0, 0, 0) (Some 0) (Some (0, 0, 1)) 0,
          Call_addVertex (1, 0, 0) (Some 1) (Some (0, 0, 1)) 1,
          Call_addVertex (2, 0, 0) (Some 2) (Some (0, 0, 1)) 2,
          Call_addFace [0, 1, 2] 0, Call_end]\<rparr>)"
  by (simp add: run_defs upt_rec)

lemma run_Bloomenthal_index:
  "exportMesh_Bloomenthal (list_builder 10 10) (one_triangle 3 0 1 3) ([], []) =
     (Inl Assert_IndexOutOfBounds,
      \<lparr>mesh = ([(0, 0, 0), (1, 0, 0), (2, 0, 0)], []),
       calls =
         [Call_begin, Call_addVertex (0, 0, 0) (Some 0) (Some (0, 0, 1)) 0,
          Call_addVertex (1, 0, 0) (Some 1) (Some (0, 0, 1)) 1,
          Call_addVertex (2, 0, 0) (Some 2) (Some (0, 0, 1)) 2]\<rparr>)"
  by (simp add: run_defs upt_rec)


lemma run_Bloomenthal_vertex_rejected:
  "exportMesh_Bloomenthal (list_builder 2 10) (one_triangle 3 0 1 2) ([], []) =
     (Inl Error_AddVertex_Bloomenthal,
      \<lparr>mesh = ([(0, 0, 0), (1, 0, 0)], []),
       calls =
         [Call_begin, Call_addVertex (0, 0, 0) (Some 0) (Some (0, 0, 1)) 0,
          Call_addVertex (1, 0, 0) (Some 1) (Some (0, 0, 1)) 1,
          Call_addVertex (2, 0, 0) (Some 2) (Some (0, 0, 1)) (- 1)]\<rparr>)"
  by (simp add: run_defs upt_rec)



lemma run_C3t3_face_rejected:
  "exportMesh_C3t3 (list_builder 10 1) (\<lambda>r. r) (one_cell [0, 1, 2, 3] [((), 3), ((), 0)])
     ([], []) =
     (Inl Error_AddTriangle_BoissonnatOudot,
      \<lparr>mesh = ([(0, 0, 0), (1, 0, 0), (2, 0, 0), (3, 0, 0)], [[0, 1, 2]]),
       calls =
         [Call_begin, Call_addVertex (0, 0, 0) None None 0,
          Call_addVertex (1, 0, 0) None None 1,
          Call_addVertex (2, 0, 0) None None 2,
          Call_addVertex (3, 0, 0) None None 3, Call_addFace [0, 1, 2] 0,
          Call_addFace [1, 2, 3] (- 1)]\<rparr>)"
  by (simp add: run_defs)

section \<open>Properties\<close>

subsection \<open>Evaluator adapters and option defaults\<close>

text \<open>
  C1. A null functor pointer given to \<^verbatim>\<open>meshBloomenthal\<close> fails the assertion in the
  constructor of \<^verbatim>\<open>BloomenthalEval\<close> before anything else is done: the outcome is the
  assertion failure, the mesh is untouched and no builder call was made; a non-null
  pointer passes. The constructor of \<^verbatim>\<open>CgalEval\<close> has no such check: given the null
  pointer it succeeds, and \<^verbatim>\<open>meshBoissonnatOudot\<close> goes on to build the domain around the
  null evaluator, to mesh it and to export the result.
\<close>

theorem C1_null_functor:
  "meshBloomenthal to_float march builder None bounding_ball pt options result =
     (Inl Assert_EvaluatorNull, \<lparr>mesh = result, calls = []\<rparr>) \<and>
   BloomenthalEval_ctor (Some f) = Inr \<lparr>bloomenthal_func = Some f\<rparr> \<and>
   CgalEval_ctor (None :: 'g option) = \<lparr>cgal_func = None\<rparr> \<and>
   meshBoissonnatOudot radiansToDegrees to_Real create_implicit_mesh_domain make_mesh_3 builder'
       (None :: 'g option) bounding_ball options' result' =
     exportMesh_C3t3 builder' to_Real
       (make_mesh_3
          (create_implicit_mesh_domain \<lparr>cgal_func = None\<rparr>
             (getCenter bounding_ball, getRadius bounding_ball * getRadius bounding_ball))
          (BoissonnatOudot_criteria radiansToDegrees options'))
       result'"
  by (simp add: meshBloomenthal_def BloomenthalEval_ctor_def meshBoissonnatOudot_def
      CgalEval_ctor_def Let_def)

text \<open>
  C2. \<^verbatim>\<open>meshBloomenthal\<close> constructs the polygonizer with a cell size that is the radius
  of the bounding ball divided by 10 when \<open>cell_size\<close> is negative and \<open>cell_size\<close>
  otherwise (either value cast to \<^verbatim>\<open>float\<close>), and with a bound on the search steps that
  is 10 when \<open>max_search_steps\<close> is negative and \<open>max_search_steps\<close> otherwise.
\<close>

theorem C2_bloomenthal_sentinels:
  "(cell_size options < 0 \<longrightarrow>
      Bloomenthal_size to_float options bounding_ball = to_float (radius bounding_ball / 10)) \<and>
   (\<not> cell_size options < 0 \<longrightarrow>
      Bloomenthal_size to_float options bounding_ball = to_float (cell_size options)) \<and>
   (max_search_steps options < 0 \<longrightarrow> Bloomenthal_bounds options = 10) \<and>
   (\<not> max_search_steps options < 0 \<longrightarrow>
      Bloomenthal_bounds options = max_search_steps options) \<and>
   meshBloomenthal to_float march builder (Some f) bounding_ball (x, y, z) options result =
     exportMesh_Bloomenthal builder
       (march \<lparr>bloomenthal_func = Some f\<rparr>
          (Bloomenthal_size to_float options bounding_ball) (Bloomenthal_bounds options)
          (tetrahedralize_cubes options) (to_float x, to_float y, to_float z))
       result"
  by (simp add: meshBloomenthal_def BloomenthalEval_ctor_def Bloomenthal_size_def
      Bloomenthal_bounds_def getRadius_def Let_def)

theorem C2_bloomenthal_sentinels_witness:
  "cell_size Bloomenthal_defaults < 0 \<and>
   Bloomenthal_size (\<lambda>r. r) Bloomenthal_defaults \<lparr>center = (0, 0, 0), radius = 2\<rparr> = 1 / 5 \<and>
   \<not> cell_size \<lparr>cell_size = 1 / 4, max_search_steps = 7, tetrahedralize_cubes = True\<rparr> < 0 \<and>
   Bloomenthal_size (\<lambda>r. r)
     \<lparr>cell_size = 1 / 4, max_search_steps = 7, tetrahedralize_cubes = True\<rparr>
     \<lparr>center = (0, 0, 0), radius = 2\<rparr> = 1 / 4 \<and>
   max_search_steps Bloomenthal_defaults < 0 \<and>
   Bloomenthal_bounds Bloomenthal_defaults = 10 \<and>
   \<not> max_search_steps \<lparr>cell_size = 1 / 4, max_search_steps = 7, tetrahedralize_cubes = True\<rparr> < 0 \<and>
   Bloomenthal_bounds \<lparr>cell_size = 1 / 4, max_search_steps = 7, tetrahedralize_cubes = True\<rparr> = 7"
  using
    C2_bloomenthal_sentinels [of Bloomenthal_defaults "\<lambda>r. r"
      "\<lparr>center = (0, 0, 0), radius = 2\<rparr>" "\<lambda>e s b t p. empty_polygonizer"
      "list_builder 0 0" "()" 0 0 0 "([], [])"]
    C2_bloomenthal_sentinels
      [of "\<lparr>cell_size = 1 / 4, max_search_steps = 7, tetrahedralize_cubes = True\<rparr>" "\<lambda>r. r"
      "\<lparr>center = (0, 0, 0), radius = 2\<rparr>" "\<lambda>e s b t p. empty_polygonizer"
      "list_builder 0 0" "()" 0 0 0 "([], [])"]
  by (simp add: Bloomenthal_defaults_def)

text \<open>
  C3. \<^verbatim>\<open>meshBoissonnatOudot\<close> meshes under these criteria: the facet angle is 30 when
  \<open>min_facet_angle\<close> is negative and \<open>min_facet_angle\<close> converted from radians to degrees
  otherwise; the facet size is 0.1 when \<open>min_delaunay_radius\<close> is negative and
  \<open>min_delaunay_radius\<close> otherwise; the facet distance is 0.1 when
  \<open>min_center_separation\<close> is negative and \<open>min_center_separation\<close> otherwise; the cell
  radius-edge ratio is 2 whatever the options.
\<close>

theorem C3_boissonnat_oudot_criteria:
  "(min_facet_angle options < 0 \<longrightarrow>
      facet_angle (BoissonnatOudot_criteria radiansToDegrees options) = 30) \<and>
   (\<not> min_facet_angle options < 0 \<longrightarrow>
      facet_angle (BoissonnatOudot_criteria radiansToDegrees options) =
        radiansToDegrees (min_facet_angle options)) \<and>
   (min_delaunay_radius options < 0 \<longrightarrow>
      facet_size (BoissonnatOudot_criteria radiansToDegrees options) = 0.1) \<and>
   (\<not> min_delaunay_radius options < 0 \<longrightarrow>
      facet_size (BoissonnatOudot_criteria radiansToDegrees options) =
        min_delaunay_radius options) \<and>
   (min_center_separation options < 0 \<longrightarrow>
      facet_distance (BoissonnatOudot_criteria radiansToDegrees options) = 0.1) \<and>
   (\<not> min_center_separation options < 0 \<longrightarrow>
      facet_distance (BoissonnatOudot_criteria radiansToDegrees options) =
        min_center_separation options) \<and>
   cell_radius_edge_ratio (BoissonnatOudot_criteria radiansToDegrees options) = 2 \<and>
   meshBoissonnatOudot radiansToDegrees to_Real create_implicit_mesh_domain make_mesh_3 builder
       surface_functor bounding_ball options result =
     exportMesh_C3t3 builder to_Real
       (make_mesh_3
          (create_implicit_mesh_domain (CgalEval_ctor surface_functor)
             (center bounding_ball, radius bounding_ball * radius bounding_ball))
          (BoissonnatOudot_criteria radiansToDegrees options))
       result"
  by (simp add: BoissonnatOudot_criteria_def meshBoissonnatOudot_def getCenter_def
      getRadius_def Let_def)

theorem C3_boissonnat_oudot_criteria_witness:
  "min_facet_angle BoissonnatOudot_defaults < 0 \<and>
   facet_angle (BoissonnatOudot_criteria (\<lambda>r. r * 180 / pi) BoissonnatOudot_defaults) = 30 \<and>
   min_delaunay_radius BoissonnatOudot_defaults < 0 \<and>
   facet_size (BoissonnatOudot_criteria (\<lambda>r. r * 180 / pi) BoissonnatOudot_defaults) = 0.1 \<and>
   min_center_separation BoissonnatOudot_defaults < 0 \<and>
   facet_distance (BoissonnatOudot_criteria (\<lambda>r. r * 180 / pi) BoissonnatOudot_defaults) = 0.1 \<and>
   \<not> min_facet_angle
       \<lparr>min_facet_angle = pi / 4, min_delaunay_radius = 1 / 2, min_center_separation = 1 / 4\<rparr>
     < 0 \<and>
   facet_angle (BoissonnatOudot_criteria (\<lambda>r. r * 180 / pi)
       \<lparr>min_facet_angle = pi / 4, min_delaunay_radius = 1 / 2, min_center_separation = 1 / 4\<rparr>)
     = 45 \<and>
   facet_size (BoissonnatOudot_criteria (\<lambda>r. r * 180 / pi)
       \<lparr>min_facet_angle = pi / 4, min_delaunay_radius = 1 / 2, min_center_separation = 1 / 4\<rparr>)
     = 1 / 2 \<and>
   facet_distance (BoissonnatOudot_criteria (\<lambda>r. r * 180 / pi)
       \<lparr>min_facet_angle = pi / 4, min_delaunay_radius = 1 / 2, min_center_separation = 1 / 4\<rparr>)
     = 1 / 4"
  using
    C3_boissonnat_oudot_criteria [of BoissonnatOudot_defaults "\<lambda>r. r * 180 / pi" "\<lambda>r. r"
      "\<lambda>e s. ()" "\<lambda>d c. one_cell [] []" "list_builder 0 0" "None :: unit option"
      "\<lparr>center = (0, 0, 0), radius = 2\<rparr>" "([], [])"]
    C3_boissonnat_oudot_criteria
      [of "\<lparr>min_facet_angle = pi / 4, min_delaunay_radius = 1 / 2, min_center_separation = 1 / 4\<rparr>"
      "\<lambda>r. r * 180 / pi" "\<lambda>r. r"
      "\<lambda>e s. ()" "\<lambda>d c. one_cell [] []" "list_builder 0 0" "None :: unit option"
      "\<lparr>center = (0, 0, 0), radius = 2\<rparr>" "([], [])"]
  by (simp add: BoissonnatOudot_defaults_def)

subsection \<open>Export from the Bloomenthal polygonizer\<close>

text \<open>
  C4. When the export of a polygonizer succeeds, the target mesh is the given one after
  the recorded calls, each insertion recorded with the handle the builder returned for
  it. The calls are \<^verbatim>\<open>begin\<close>, then one \<^verbatim>\<open>addVertex\<close> for each raw vertex index
  \<open>0 .. no_vertices - 1\<close> in order, with the position, the index and the normal of that
  vertex, then one \<^verbatim>\<open>addFace\<close> for each raw triangle in order, then \<^verbatim>\<open>end\<close>. The handles
  passed for a triangle are those the \<^verbatim>\<open>addVertex\<close> calls returned, read at the positions
  the triangle names, so the handle at position \<open>i\<close> is the one returned for raw vertex
  \<open>i\<close>. Hence as many vertices are added as there are raw vertices and as many faces as
  there are raw triangles.
\<close>

theorem C4_continuation_export_counts:
  assumes "exportMesh_Bloomenthal builder polygonizer dst = (Inr (), st)"
  shows "mesh st = replay builder (calls st) dst \<and>
         returned_by builder (calls st) dst \<and>
         calls st =
           Call_begin #
           map (\<lambda>i. Call_addVertex (get_vertex polygonizer i) (Some (int i))
                      (Some (get_normal polygonizer i)) (snd (vertex_calls (calls st) ! i)))
             [0..<no_vertices polygonizer] @
           map (\<lambda>k. Call_addFace
                      (triangle_handles (map snd (vertex_calls (calls st)))
                         (get_triangle polygonizer k))
                      (snd (face_calls (calls st) ! k)))
             [0..<no_triangles polygonizer] @
           [Call_end] \<and>
         map fst (vertex_calls (calls st)) =
           map (raw_vertex_args polygonizer) [0..<no_vertices polygonizer] \<and>
         map fst (face_calls (calls st)) =
           map (\<lambda>k. triangle_handles (map snd (vertex_calls (calls st)))
                      (get_triangle polygonizer k))
             [0..<no_triangles polygonizer] \<and>
         length (vertex_calls (calls st)) = no_vertices polygonizer \<and>
         length (face_calls (calls st)) = no_triangles polygonizer"
proof -
  let ?P = polygonizer
  from assms obtain hs fs where sh:
    "length hs \<le> no_vertices ?P" "length fs \<le> no_triangles ?P"
    "calls st = Call_begin # map2 (raw_vertex_call ?P) [0..<no_vertices ?P] hs @
       map2 (raw_triangle_call ?P hs) [0..<no_triangles ?P] fs @
       (if Inr () = (Inr () :: error + unit) then [Call_end] else [])"
    "length hs = no_vertices ?P \<and> length fs = no_triangles ?P"
    and rp: "mesh st = replay builder (calls st) dst"
    by (rule exportMesh_Bloomenthal_shape) simp
  note pr = projections_Bloomenthal[OF sh(1,2,3)]
  have len: "length (vertex_calls (calls st)) = length hs"
    "length (face_calls (calls st)) = length fs"
    using pr(1,3) by (metis length_map)+
  have nthv: "snd (vertex_calls (calls st) ! i) = hs ! i" if "i < length hs" for i
    using that len pr(1) by (metis nth_map)
  have nthf: "snd (face_calls (calls st) ! k) = fs ! k" if "k < length fs" for k
    using that len pr(3) by (metis nth_map)
  have V: "map2 (raw_vertex_call ?P) [0..<no_vertices ?P] hs =
      map (\<lambda>i. Call_addVertex (get_vertex ?P i) (Some (int i)) (Some (get_normal ?P i))
                 (snd (vertex_calls (calls st) ! i)))
        [0..<no_vertices ?P]"
  proof -
    have "map2 (raw_vertex_call ?P) [0..<no_vertices ?P] hs =
        map (\<lambda>i. raw_vertex_call ?P i (hs ! i)) [0..<no_vertices ?P]"
      using sh(4) by (simp add: map2_upt)
    also have "\<dots> = map (\<lambda>i. Call_addVertex (get_vertex ?P i) (Some (int i))
        (Some (get_normal ?P i)) (snd (vertex_calls (calls st) ! i))) [0..<no_vertices ?P]"
      using sh(4) by (intro map_cong refl) (simp add: raw_vertex_call_def nthv)
    finally show ?thesis .
  qed
  have F: "map2 (raw_triangle_call ?P hs) [0..<no_triangles ?P] fs =
      map (\<lambda>k. Call_addFace
                 (triangle_handles (map snd (vertex_calls (calls st))) (get_triangle ?P k))
                 (snd (face_calls (calls st) ! k)))
        [0..<no_triangles ?P]"
  proof -
    have "map2 (raw_triangle_call ?P hs) [0..<no_triangles ?P] fs =
        map (\<lambda>k. raw_triangle_call ?P hs k (fs ! k)) [0..<no_triangles ?P]"
      using sh(4) by (simp add: map2_upt)
    also have "\<dots> = map (\<lambda>k. Call_addFace
        (triangle_handles (map snd (vertex_calls (calls st))) (get_triangle ?P k))
        (snd (face_calls (calls st) ! k))) [0..<no_triangles ?P]"
      using sh(4) by (intro map_cong refl) (simp add: raw_triangle_call_def nthf pr(1))
    finally show ?thesis .
  qed
  have shape: "calls st =
           Call_begin #
           map (\<lambda>i. Call_addVertex (get_vertex ?P i) (Some (int i))
                      (Some (get_normal ?P i)) (snd (vertex_calls (calls st) ! i)))
             [0..<no_vertices ?P] @
           map (\<lambda>k. Call_addFace
                      (triangle_handles (map snd (vertex_calls (calls st)))
                         (get_triangle ?P k))
                      (snd (face_calls (calls st) ! k)))
             [0..<no_triangles ?P] @
           [Call_end]"
    using sh(3) unfolding V F by simp
  have ret: "returned_by builder (calls st) dst"
    using assms by (rule exportMesh_Bloomenthal_returned)
  have proj: "map fst (vertex_calls (calls st)) =
           map (raw_vertex_args ?P) [0..<no_vertices ?P]"
    "map fst (face_calls (calls st)) =
           map (\<lambda>k. triangle_handles (map snd (vertex_calls (calls st))) (get_triangle ?P k))
             [0..<no_triangles ?P]"
    "length (vertex_calls (calls st)) = no_vertices ?P"
    "length (face_calls (calls st)) = no_triangles ?P"
    using pr sh(4) len by simp_all
  from rp ret shape proj show ?thesis
    by (intro conjI)
qed

theorem C4_continuation_export_counts_witness:
  "fst (exportMesh_Bloomenthal (list_builder 10 10) (one_triangle 3 0 1 2) ([], [])) = Inr () \<and>
   mesh (snd (exportMesh_Bloomenthal (list_builder 10 10) (one_triangle 3 0 1 2) ([], []))) =
     ([(0, 0, 0), (1, 0, 0), (2, 0, 0)], [[0, 1, 2]]) \<and>
   replay (list_builder 10 10)
     (calls (snd (exportMesh_Bloomenthal (list_builder 10 10) (one_triangle 3 0 1 2) ([], []))))
     ([], []) =
     ([(0, 0, 0), (1, 0, 0), (2, 0, 0)], [[0, 1, 2]]) \<and>
   map fst (vertex_calls (calls (snd
     (exportMesh_Bloomenthal (list_builder 10 10) (one_triangle 3 0 1 2) ([], []))))) =
     [((0, 0, 0), Some 0, Some (0, 0, 1)), ((1, 0, 0), Some 1, Some (0, 0, 1)),
      ((2, 0, 0), Some 2, Some (0, 0, 1))] \<and>
   face_calls (calls (snd
     (exportMesh_Bloomenthal (list_builder 10 10) (one_triangle 3 0 1 2) ([], [])))) =
     [([0, 1, 2], 0)]"
  using C4_continuation_export_counts[OF run_Bloomenthal_ok, THEN conjunct1]
  unfolding run_Bloomenthal_ok by simp



subsection \<open>Export from a CGAL complex\<close>





subsection \<open>Failures and the frame\<close>

text \<open>
  C8. In either export, a call before the last one never returned an invalid handle: an
  insertion that the builder rejects is the last call made on it, neither \<^verbatim>\<open>end\<close> nor
  another insertion follows. A rejected \<^verbatim>\<open>addVertex\<close> makes the outcome the error "could
  not add vertex", a rejected \<^verbatim>\<open>addFace\<close> the error "could not add triangle". The mesh
  is left as the calls made it, the rejected one included: nothing is undone. The
  \<^verbatim>\<open>addVertex\<close> calls are for the first vertices of the input in order, one each, and so
  are the \<^verbatim>\<open>addFace\<close> calls for the first triangles or facets: no insertion is tried
  twice.
\<close>

theorem C8_rejected_insertion_aborts:
  "(exportMesh_Bloomenthal builder polygonizer dst = (r, st) \<longrightarrow>
      (\<forall>c\<in>set (butlast (calls st)). \<not> rejected builder c) \<and>
      (\<forall>p i n vx. Call_addVertex p i n vx \<in> set (calls st) \<and>
         \<not> isValidVertexHandle builder vx \<longrightarrow> r = Inl Error_AddVertex_Bloomenthal) \<and>
      (\<forall>vx face. Call_addFace vx face \<in> set (calls st) \<and>
         \<not> isValidFaceHandle builder face \<longrightarrow> r = Inl Error_AddTriangle_Bloomenthal) \<and>
      mesh st = replay builder (calls st) dst \<and>
      map fst (vertex_calls (calls st)) =
        map (raw_vertex_args polygonizer) [0..<length (vertex_calls (calls st))] \<and>
      length (vertex_calls (calls st)) \<le> no_vertices polygonizer \<and>
      map fst (face_calls (calls st)) =
        map (\<lambda>k. triangle_handles (map snd (vertex_calls (calls st)))
                   (get_triangle polygonizer k))
          [0..<length (face_calls (calls st))] \<and>
      length (face_calls (calls st)) \<le> no_triangles polygonizer) \<and>
   (exportMesh_C3t3 builder' to_Real src dst' = (r', st') \<longrightarrow>
      (\<forall>c\<in>set (butlast (calls st')). \<not> rejected builder' c) \<and>
      (\<forall>p i n vx. Call_addVertex p i n vx \<in> set (calls st') \<and>
         \<not> isValidVertexHandle builder' vx \<longrightarrow> r' = Inl Error_AddVertex_BoissonnatOudot) \<and>
      (\<forall>vx face. Call_addFace vx face \<in> set (calls st') \<and>
         \<not> isValidFaceHandle builder' face \<longrightarrow> r' = Inl Error_AddTriangle_BoissonnatOudot) \<and>
      mesh st' = replay builder' (calls st') dst' \<and>
      map fst (vertex_calls (calls st')) =
        map (finite_vertex_args to_Real src)
          (take (length (vertex_calls (calls st'))) (finite_vertices src)) \<and>
      length (vertex_calls (calls st')) \<le> length (finite_vertices src) \<and>
      length (face_calls (calls st')) \<le> length (facets_in_complex src))"
proof (intro conjI impI)
  assume run: "exportMesh_Bloomenthal builder polygonizer dst = (r, st)"
  let ?P = polygonizer
  from run obtain hs fs where sh:
    "length hs \<le> no_vertices ?P" "length fs \<le> no_triangles ?P"
    "calls st = Call_begin # map2 (raw_vertex_call ?P) [0..<no_vertices ?P] hs @
       map2 (raw_triangle_call ?P hs) [0..<no_triangles ?P] fs @
       (if r = Inr () then [Call_end] else [])"
    and rp: "mesh st = replay builder (calls st) dst"
    and ev: "r = Inl Error_AddVertex_Bloomenthal \<longrightarrow> fs = [] \<and> hs \<noteq> [] \<and>
       \<not> isValidVertexHandle builder (last hs)"
    and bl: "\<forall>h\<in>set (butlast hs). isValidVertexHandle builder h"
      "\<forall>f\<in>set (butlast fs). isValidFaceHandle builder f"
    and ok: "r \<noteq> Inl Error_AddVertex_Bloomenthal \<longrightarrow> (\<forall>h\<in>set hs. isValidVertexHandle builder h)"
      "r \<noteq> Inl Error_AddTriangle_Bloomenthal \<longrightarrow> (\<forall>f\<in>set fs. isValidFaceHandle builder f)"
    by (rule exportMesh_Bloomenthal_shape) blast
  note pr = projections_Bloomenthal[OF sh(1,2,3)]
  have len: "length (vertex_calls (calls st)) = length hs"
    "length (face_calls (calls st)) = length fs"
    using pr(1,3) by (metis length_map)+
  show "\<forall>c\<in>set (butlast (calls st)). \<not> rejected builder c"
    unfolding sh(3)
    by (rule export_calls_butlast[where okv = "isValidVertexHandle builder"
          and okf = "isValidFaceHandle builder"])
      (use sh(1,2) bl ev ok in auto)
  show "\<forall>p i n vx. Call_addVertex p i n vx \<in> set (calls st) \<and>
         \<not> isValidVertexHandle builder vx \<longrightarrow> r = Inl Error_AddVertex_Bloomenthal"
    using addVertex_call_handle[of _ _ _ _ "calls st"] ok(1) unfolding pr(1) by blast
  show "\<forall>vx face. Call_addFace vx face \<in> set (calls st) \<and>
         \<not> isValidFaceHandle builder face \<longrightarrow> r = Inl Error_AddTriangle_Bloomenthal"
    using addFace_call_handle[of _ _ "calls st"] ok(2) unfolding pr(3) by blast
  show "mesh st = replay builder (calls st) dst"
    by (rule rp)
  show "map fst (vertex_calls (calls st)) =
        map (raw_vertex_args polygonizer) [0..<length (vertex_calls (calls st))]"
    using pr(2) len by simp
  show "length (vertex_calls (calls st)) \<le> no_vertices polygonizer"
    using sh(1) len by simp
  show "map fst (face_calls (calls st)) =
        map (\<lambda>k. triangle_handles (map snd (vertex_calls (calls st)))
                   (get_triangle polygonizer k))
          [0..<length (face_calls (calls st))]"
    using pr(1,4) len by simp
  show "length (face_calls (calls st)) \<le> no_triangles polygonizer"
    using sh(2) len by simp
next
  assume run: "exportMesh_C3t3 builder' to_Real src dst' = (r', st')"
  from run obtain hs fs where sh:
    "length hs \<le> length (finite_vertices src)"
    "length fs \<le> length (facets_in_complex src)"
    "calls st' = Call_begin # map2 (finite_vertex_call to_Real src) (finite_vertices src) hs @
       map2 (facet_call src (identity_map Map.empty (finite_vertices src) hs))
         (facets_in_complex src) fs @
       (if r' = Inr () then [Call_end] else [])"
    and rp: "mesh st' = replay builder' (calls st') dst'"
    and ev: "r' = Inl Error_AddVertex_BoissonnatOudot \<longrightarrow> fs = [] \<and> hs \<noteq> [] \<and>
       \<not> isValidVertexHandle builder' (last hs)"
    and bl: "\<forall>h\<in>set (butlast hs). isValidVertexHandle builder' h"
      "\<forall>f\<in>set (butlast fs). isValidFaceHandle builder' f"
    and ok: "r' \<noteq> Inl Error_AddVertex_BoissonnatOudot \<longrightarrow>
        (\<forall>h\<in>set hs. isValidVertexHandle builder' h)"
      "r' \<noteq> Inl Error_AddTriangle_BoissonnatOudot \<longrightarrow>
        (\<forall>f\<in>set fs. isValidFaceHandle builder' f)"
    by (rule exportMesh_C3t3_shape) blast
  note pr = projections_C3t3[OF sh(1,2,3)]
  have len: "length (vertex_calls (calls st')) = length hs"
    "length (face_calls (calls st')) = length fs"
    using pr(1,3) by (metis length_map)+
  show "\<forall>c\<in>set (butlast (calls st')). \<not> rejected builder' c"
    unfolding sh(3)
    by (rule export_calls_butlast[where okv = "isValidVertexHandle builder'"
          and okf = "isValidFaceHandle builder'"])
      (use sh(1,2) bl ev ok in auto)
  show "\<forall>p i n vx. Call_addVertex p i n vx \<in> set (calls st') \<and>
         \<not> isValidVertexHandle builder' vx \<longrightarrow> r' = Inl Error_AddVertex_BoissonnatOudot"
    using addVertex_call_handle[of _ _ _ _ "calls st'"] ok(1) unfolding pr(1) by blast
  show "\<forall>vx face. Call_addFace vx face \<in> set (calls st') \<and>
         \<not> isValidFaceHandle builder' face \<longrightarrow> r' = Inl Error_AddTriangle_BoissonnatOudot"
    using addFace_call_handle[of _ _ "calls st'"] ok(2) unfolding pr(3) by blast
  show "mesh st' = replay builder' (calls st') dst'"
    by (rule rp)
  show "map fst (vertex_calls (calls st')) =
        map (finite_vertex_args to_Real src)
          (take (length (vertex_calls (calls st'))) (finite_vertices src))"
    using pr(2) len by simp
  show "length (vertex_calls (calls st')) \<le> length (finite_vertices src)"
    using sh(1) len by simp
  show "length (face_calls (calls st')) \<le> length (facets_in_complex src)"
    using sh(2) len by simp
qed

theorem C8_rejected_insertion_aborts_witness:
  "exportMesh_Bloomenthal (list_builder 2 10) (one_triangle 3 0 1 2) ([], []) =
     (Inl Error_AddVertex_Bloomenthal,
      \<lparr>mesh = ([(0, 0, 0), (1, 0, 0)], []),
       calls =
         [Call_begin, Call_addVertex (0, 0, 0) (Some 0) (Some (0, 0, 1)) 0,
          Call_addVertex (1, 0, 0) (Some 1) (Some (0, 0, 1)) 1,
          Call_addVertex (2, 0, 0) (Some 2) (Some (0, 0, 1)) (- 1)]\<rparr>) \<and>
   \<not> isValidVertexHandle (list_builder 2 10) (- 1) \<and>
   replay (list_builder 2 10)
     [Call_begin, Call_addVertex (0, 0, 0) (Some 0) (Some (0, 0, 1)) 0,
      Call_addVertex (1, 0, 0) (Some 1) (Some (0, 0, 1)) 1,
      Call_addVertex (2, 0, 0) (Some 2) (Some (0, 0, 1)) (- 1)] ([], []) =
     ([(0, 0, 0), (1, 0, 0)], []) \<and>
   exportMesh_C3t3 (list_builder 10 1) (\<lambda>r. r) (one_cell [0, 1, 2, 3] [((), 3), ((), 0)])
     ([], []) =
     (Inl Error_AddTriangle_BoissonnatOudot,
      \<lparr>mesh = ([(0, 0, 0), (1, 0, 0), (2, 0, 0), (3, 0, 0)], [[0, 1, 2]]),
       calls =
         [Call_begin, Call_addVertex (0, 0, 0) None None 0,
          Call_addVertex (1, 0, 0) None None 1,
          Call_addVertex (2, 0, 0) None None 2,
          Call_addVertex (3, 0, 0) None None 3, Call_addFace [0, 1, 2] 0,
          Call_addFace [1, 2, 3] (- 1)]\<rparr>) \<and>
   \<not> isValidFaceHandle (list_builder 10 1) (- 1)"
  using C8_rejected_insertion_aborts
    [where builder = "list_builder 2 10" and polygonizer = "one_triangle 3 0 1 2"
      and dst = "([], [])" and r = "Inl Error_AddVertex_Bloomenthal"
      and st = "\<lparr>mesh = ([(0, 0, 0), (1, 0, 0)], []),
       calls =
         [Call_begin, Call_addVertex (0, 0, 0) (Some 0) (Some (0, 0, 1)) 0,
          Call_addVertex (1, 0, 0) (Some 1) (Some (0, 0, 1)) 1,
          Call_addVertex (2, 0, 0) (Some 2) (Some (0, 0, 1)) (- 1)]\<rparr>"
      and builder' = "list_builder 10 1" and to_Real = "\<lambda>r. r"
      and src = "one_cell [0, 1, 2, 3] [((), 3), ((), 0)]" and dst' = "([], [])"
      and r' = "Inl Error_AddTriangle_BoissonnatOudot"
      and st' = "\<lparr>mesh = ([(0, 0, 0), (1, 0, 0), (2, 0, 0), (3, 0, 0)], [[0, 1, 2]]),
       calls =
         [Call_begin, Call_addVertex (0, 0, 0) None None 0,
          Call_addVertex (1, 0, 0) None None 1,
          Call_addVertex (2, 0, 0) None None 2,
          Call_addVertex (3, 0, 0) None None 3, Call_addFace [0, 1, 2] 0,
          Call_addFace [1, 2, 3] (- 1)]\<rparr>"]
    run_Bloomenthal_vertex_rejected run_C3t3_face_rejected
  by (simp add: list_builder_def)

text \<open>
  C9. Whatever the outcome of \<^verbatim>\<open>meshBloomenthal\<close> or \<^verbatim>\<open>meshBoissonnatOudot\<close>, the target
  mesh they leave is the given one after the recorded calls of \<^verbatim>\<open>begin\<close>, \<^verbatim>\<open>addVertex\<close>,
  \<^verbatim>\<open>addFace\<close> and \<^verbatim>\<open>end\<close>, and nothing else was done to it. So for a builder whose four
  operations keep what a mesh holds (\<open>content\<close> being any reading of a mesh as a set),
  everything the mesh held before the call it still holds after it.
\<close>

theorem C9_additions_only:
  assumes "\<forall>m. content m \<subseteq> content (builder_begin builder m)"
    and "\<forall>m. content m \<subseteq> content (builder_end builder m)"
    and "\<forall>p i n m. content m \<subseteq> content (snd (addVertex builder p i n m))"
    and "\<forall>vx m. content m \<subseteq> content (snd (addFace builder vx m))"
  shows "(meshBloomenthal to_float march builder surface_functor bounding_ball pt_near_surface
            options result = (r, st) \<longrightarrow>
          mesh st = replay builder (calls st) result \<and> content result \<subseteq> content (mesh st)) \<and>
         (meshBoissonnatOudot radiansToDegrees to_Real create_implicit_mesh_domain make_mesh_3
            builder surface_functor' bounding_ball' options' result' = (r', st') \<longrightarrow>
          mesh st' = replay builder (calls st') result' \<and> content result' \<subseteq> content (mesh st'))"
proof -
  have step: "content m \<subseteq> content (apply_call builder c m)" for c m
    using assms by (cases c) (simp_all del: split_paired_All)
  have keep: "content m \<subseteq> content (replay builder cs m)" for cs m
    using step by (rule replay_keeps_content)
  show ?thesis
  proof (intro conjI impI)
    assume "meshBloomenthal to_float march builder surface_functor bounding_ball pt_near_surface
            options result = (r, st)"
    then show rp: "mesh st = replay builder (calls st) result"
      by (rule meshBloomenthal_replay)
    show "content result \<subseteq> content (mesh st)"
      unfolding rp by (rule keep)
  next
    assume "meshBoissonnatOudot radiansToDegrees to_Real create_implicit_mesh_domain make_mesh_3
            builder surface_functor' bounding_ball' options' result' = (r', st')"
    then show rp: "mesh st' = replay builder (calls st') result'"
      by (rule meshBoissonnatOudot_replay)
    show "content result' \<subseteq> content (mesh st')"
      unfolding rp by (rule keep)
  qed
qed

theorem C9_additions_only_witness:
  "(\<forall>m. set (fst m) \<subseteq> set (fst (builder_begin (list_builder 10 10) m))) \<and>
   (\<forall>m. set (fst m) \<subseteq> set (fst (builder_end (list_builder 10 10) m))) \<and>
   (\<forall>p i n m. set (fst m) \<subseteq> set (fst (snd (addVertex (list_builder 10 10) p i n m)))) \<and>
   (\<forall>vx m. set (fst m) \<subseteq> set (fst (snd (addFace (list_builder 10 10) vx m)))) \<and>
   meshBloomenthal (\<lambda>r. r) (\<lambda>e s b t p. one_triangle 3 0 1 2) (list_builder 10 10) (Some ())
       \<lparr>center = (0, 0, 0), radius = 2\<rparr> (1, 0, 0) Bloomenthal_defaults
       ([(5, 5, 5)], [[0, 0, 0]]) =
     (Inr (),
      \<lparr>mesh = ([(5, 5, 5), (0, 0, 0), (1, 0, 0), (2, 0, 0)], [[0, 0, 0], [1, 2, 3]]),
       calls =
         [Call_begin, Call_addVertex (0, 0, 0) (Some 0) (Some (0, 0, 1)) 1,
          Call_addVertex (1, 0, 0) (Some 1) (Some (0, 0, 1)) 2,
          Call_addVertex (2, 0, 0) (Some 2) (Some (0, 0, 1)) 3,
          Call_addFace [1, 2, 3] 1, Call_end]\<rparr>) \<and>
   set (fst ([(5, 5, 5)], [[0, 0, 0 :: int]])) \<subseteq>
     set (fst ([(5, 5, 5), (0, 0, 0), (1, 0, 0), (2, 0, 0) :: Vector3],
               [[0, 0, 0], [1, 2, 3 :: int]])) \<and>
   meshBoissonnatOudot (\<lambda>r. r * 180 / pi) (\<lambda>r. r) (\<lambda>e s. ())
       (\<lambda>d c. one_cell [0, 1, 2] [((), 3), ((), 0)]) (list_builder 10 10)
       (Some ()) \<lparr>center = (0, 0, 0), radius = 2\<rparr> BoissonnatOudot_defaults
       ([(5, 5, 5)], [[0, 0, 0]]) =
     (Inl Error_UnmappedVertex,
      \<lparr>mesh = ([(5, 5, 5), (0, 0, 0), (1, 0, 0), (2, 0, 0)], [[0, 0, 0], [1, 2, 3]]),
       calls =
         [Call_begin, Call_addVertex (0, 0, 0) None None 1,
          Call_addVertex (1, 0, 0) None None 2,
          Call_addVertex (2, 0, 0) None None 3, Call_addFace [1, 2, 3] 1]\<rparr>)"
proof -
  have keeps:
    "\<forall>m. set (fst m) \<subseteq> set (fst (builder_begin (list_builder 10 10) m))"
    "\<forall>m. set (fst m) \<subseteq> set (fst (builder_end (list_builder 10 10) m))"
    "\<forall>p i n m. set (fst m) \<subseteq> set (fst (snd (addVertex (list_builder 10 10) p i n m)))"
    "\<forall>vx m. set (fst m) \<subseteq> set (fst (snd (addFace (list_builder 10 10) vx m)))"
    by (auto simp: list_builder_def)
  have run1: "meshBloomenthal (\<lambda>r. r) (\<lambda>e s b t p. one_triangle 3 0 1 2) (list_builder 10 10)
       (Some ()) \<lparr>center = (0, 0, 0), radius = 2\<rparr> (1, 0, 0) Bloomenthal_defaults
       ([(5, 5, 5)], [[0, 0, 0]]) =
     (Inr (),
      \<lparr>mesh = ([(5, 5, 5), (0, 0, 0), (1, 0, 0), (2, 0, 0)], [[0, 0, 0], [1, 2, 3]]),
       calls =
         [Call_begin, Call_addVertex (0, 0, 0) (Some 0) (Some (0, 0, 1)) 1,
          Call_addVertex (1, 0, 0) (Some 1) (Some (0, 0, 1)) 2,
          Call_addVertex (2, 0, 0) (Some 2) (Some (0, 0, 1)) 3,
          Call_addFace [1, 2, 3] 1, Call_end]\<rparr>)"
    by (simp add: meshBloomenthal_def BloomenthalEval_ctor_def run_defs upt_rec)
  have run2: "meshBoissonnatOudot (\<lambda>r. r * 180 / pi) (\<lambda>r. r) (\<lambda>e s. ())
       (\<lambda>d c. one_cell [0, 1, 2] [((), 3), ((), 0)]) (list_builder 10 10)
       (Some ()) \<lparr>center = (0, 0, 0), radius = 2\<rparr> BoissonnatOudot_defaults
       ([(5, 5, 5)], [[0, 0, 0]]) =
     (Inl Error_UnmappedVertex,
      \<lparr>mesh = ([(5, 5, 5), (0, 0, 0), (1, 0, 0), (2, 0, 0)], [[0, 0, 0], [1, 2, 3]]),
       calls =
         [Call_begin, Call_addVertex (0, 0, 0) None None 1,
          Call_addVertex (1, 0, 0) None None 2,
          Call_addVertex (2, 0, 0) None None 3, Call_addFace [1, 2, 3] 1]\<rparr>)"
    by (simp add: meshBoissonnatOudot_def run_defs)
  from C9_additions_only[of "\<lambda>m. set (fst m)" "list_builder 10 10", OF keeps,
      THEN conjunct1, rule_format, OF run1, THEN conjunct2]
  have "set (fst ([(5, 5, 5)], [[0, 0, 0 :: int]])) \<subseteq>
     set (fst ([(5, 5, 5), (0, 0, 0), (1, 0, 0), (2, 0, 0) :: Vector3],
               [[0, 0, 0], [1, 2, 3 :: int]]))"
    by simp
  with keeps run1 run2 show ?thesis
    by (intro conjI)
qed

text \<open>
  C10. When the polygonizer reports no vertices and no triangles, or the complex has no
  finite vertices and no surface facets, the export succeeds: \<^verbatim>\<open>begin\<close> and \<^verbatim>\<open>end\<close> are
  called on the builder and nothing else.
\<close>

theorem C10_empty_result:
  "(no_vertices polygonizer = 0 \<and> no_triangles polygonizer = 0 \<longrightarrow>
      exportMesh_Bloomenthal builder polygonizer dst =
        (Inr (),
         \<lparr>mesh = builder_end builder (builder_begin builder dst),
          calls = [Call_begin, Call_end]\<rparr>)) \<and>
   (finite_vertices src = [] \<and> facets_in_complex src = [] \<longrightarrow>
      exportMesh_C3t3 builder to_Real src dst =
        (Inr (),
         \<lparr>mesh = builder_end builder (builder_begin builder dst),
          calls = [Call_begin, Call_end]\<rparr>))"
  by (simp add: exportMesh_Bloomenthal_def exportMesh_C3t3_def do_begin_def do_end_def)

theorem C10_empty_result_witness:
  "no_vertices empty_polygonizer = 0 \<and> no_triangles empty_polygonizer = 0 \<and>
   exportMesh_Bloomenthal (list_builder 10 10) empty_polygonizer ([(5, 5, 5)], []) =
     (Inr (), \<lparr>mesh = ([(5, 5, 5)], []), calls = [Call_begin, Call_end]\<rparr>) \<and>
   finite_vertices (one_cell [] []) = [] \<and> facets_in_complex (one_cell [] []) = [] \<and>
   exportMesh_C3t3 (list_builder 10 10) (\<lambda>r. r) (one_cell [] []) ([(5, 5, 5)], []) =
     (Inr (), \<lparr>mesh = ([(5, 5, 5)], []), calls = [Call_begin, Call_end]\<rparr>)"
  using C10_empty_result[of empty_polygonizer "list_builder 10 10" "([(5, 5, 5)], [])"
      "one_cell [] []" "\<lambda>r. r"]
  by (simp add: empty_polygonizer_def one_cell_def list_builder_def)

end
